theory Spec2Isabelle
  imports Main "HOL-Library.Log_Nat"
begin

section \<open>Data model of the client library (jira.go)\<close>

text \<open>
  Go strings are byte strings: \<open>string\<close>. A pointer \<open>*T\<close> is a \<open>T option\<close>, with
  \<open>None\<close> for \<open>nil\<close>. A slice whose being \<open>nil\<close> matters (\<open>Versions\<close>) is a
  \<open>list option\<close>. Go's \<open>int\<close> is the 64-bit signed integer of the common platforms; it is
  modelled by \<open>int\<close>, and \<open>is_int\<close> is its range. A field keeps the name it has in the
  source when that name occurs in one struct only, and is prefixed by the name of its struct
  otherwise. The type \<open>User\<close> is used by \<open>IssueFields\<close> and declared nowhere in the
  file: it is the type parameter \<open>'u\<close>.
\<close>

definition is_int :: "int \<Rightarrow> bool" where
  "is_int n \<longleftrightarrow> - (2 ^ 63) \<le> n \<and> n < 2 ^ 63"

text \<open>A \<open>float32\<close> field: a finite value, or one of the values JSON cannot carry.\<close>

datatype float32 = F32 rat | F32_NaN | F32_Inf bool

record Auth =
  Login :: string
  Password :: string

text \<open>The \<open>Client\<close> field of \<open>Jira\<close> is the network; it is part of the environment below.\<close>

record Jira =
  BaseUrl :: string
  ApiPath :: string
  ActivityPath :: string
  Auth :: "Auth option"

record Version =
  Version_Id :: string
  Version_Self :: string
  Version_Name :: string
  Version_Description :: string
  Version_Project :: string
  Version_ProjectId :: int

record Comment =
  Body :: string

record Pagination =
  Total :: int
  StartAt :: int
  MaxResults :: int
  Page :: int
  PageCount :: int
  Pages :: "int list"

record IssueRef =
  IssueRef_Id :: string
  IssueRef_Key :: string
  IssueRef_Self :: string

record IssueType =
  IssueType_Self :: string
  IssueType_Id :: string
  IssueType_Description :: string
  IconUrl :: string
  IssueType_Name :: string
  Subtask :: bool

text \<open>\<open>AvatarUrls\<close> is a map from strings to strings: its entries, in the order of the keys.\<close>

record JiraProject =
  JiraProject_Self :: string
  JiraProject_Id :: string
  JiraProject_Key :: string
  JiraProject_Name :: string
  AvatarUrls :: "(string \<times> string) list"

record 'u IssueFields =
  IssueFields_IssueType :: "IssueType option"
  Summary :: string
  IssueFields_Description :: string
  Reporter :: "'u option"
  Assignee :: "'u option"
  IssueFields_Project :: "JiraProject option"
  Created :: string
  Versions :: "Version option list option"
  CrashReportId :: float32
  BacktraceHash :: string
  CrashCount :: float32

record 'u Issue =
  Issue_Id :: string
  Issue_Key :: string
  Issue_Self :: string
  Issue_Expand :: string
  Fields :: "'u IssueFields option"

record 'u SearchResult =
  SearchResult_Expand :: string
  SearchResult_StartAt :: int
  SearchResult_MaxResults :: int
  SearchResult_Total :: int
  Issues :: "'u Issue option list"
  SearchResult_Pagination :: "Pagination option"

text \<open>
  A run-time panic of Go: a nil pointer dereference, a slice length that \<open>make\<close>
  refuses, an integer division by zero, or an explicit \<open>panic\<close> with its message.
\<close>

datatype panic =
  NilDereference
  | MakesliceLenOutOfRange
  | IntegerDivideByZero
  | Panic string

section \<open>float64 arithmetic\<close>

text \<open>
  \<open>Compute\<close> divides in float64. A float64 is a finite value (a rational), an infinity or
  NaN; the sign of a zero is left out: it has no effect on a conversion to int, and a zero
  divisor here is the conversion of the int 0, the positive zero.
\<close>

datatype float64 = Finite rat | PInf | NInf | NaN

text \<open>
  Rounding to the nearest float64, ties to the even significand. \<open>ilog2 x\<close> is the exponent
  of a positive \<open>x\<close>: the \<open>e\<close> with \<open>2^e \<le> x < 2^(e+1)\<close>, found from the bit lengths of
  numerator and denominator. \<open>ulp x\<close> is the distance between the float64 values around
  \<open>x\<close>: 52 binary places below the exponent, which is at least -1022. \<open>nearest x\<close> is the
  multiple of \<open>ulp x\<close> nearest to \<open>x\<close>; from \<open>huge\<close> on it is an infinity.
\<close>

definition ilog2 :: "rat \<Rightarrow> int" where
  "ilog2 x =
     (let (p, q) = quotient_of x;
          k = int (floorlog 2 (nat p)) - int (floorlog 2 (nat q))
      in if 2 powi k \<le> x then k else k - 1)"

definition round_even :: "rat \<Rightarrow> int" where
  "round_even t =
     (let n = \<lfloor>t\<rfloor>; d = t - of_int n
      in if d < 1 / 2 then n else if 1 / 2 < d then n + 1 else if even n then n else n + 1)"

definition ulp :: "rat \<Rightarrow> rat" where
  "ulp x = 2 powi (max (ilog2 \<bar>x\<bar>) (- 1022) - 52)"

definition nearest :: "rat \<Rightarrow> rat" where
  "nearest x = of_int (round_even (x / ulp x)) * ulp x"

definition huge :: rat where
  "huge = 2 ^ 1024"

definition round_f64 :: "rat \<Rightarrow> float64" where
  "round_f64 x =
     (if x = 0 then Finite 0
      else if huge \<le> \<bar>nearest x\<bar> then (if 0 < x then PInf else NInf)
      else Finite (nearest x))"

text \<open>
  The conversion \<open>float64(n)\<close> of an int, the division of two float64, and \<open>math.Ceil\<close>.
\<close>

definition float64_of_int :: "int \<Rightarrow> float64" where
  "float64_of_int n = round_f64 (of_int n)"

fun f64_div :: "float64 \<Rightarrow> float64 \<Rightarrow> float64" where
  "f64_div NaN y = NaN"
| "f64_div x NaN = NaN"
| "f64_div (Finite a) (Finite b) =
     (if b = 0 then (if a = 0 then NaN else if 0 < a then PInf else NInf)
      else round_f64 (a / b))"
| "f64_div (Finite a) y = Finite 0"
| "f64_div PInf (Finite b) = (if 0 \<le> b then PInf else NInf)"
| "f64_div NInf (Finite b) = (if 0 \<le> b then NInf else PInf)"
| "f64_div x y = NaN"

fun Ceil :: "float64 \<Rightarrow> float64" where
  "Ceil (Finite x) = Finite (of_int \<lceil>x\<rceil>)"
| "Ceil x = x"

text \<open>
  The conversion \<open>int(x)\<close> of a float64 drops the fraction. For a value that \<open>int\<close> cannot
  hold (NaN, an infinity, a value out of range) Go leaves the result to the implementation:
  \<open>convert_other\<close> is that result. \<open>max_len\<close> is the greatest length that \<open>make\<close>
  accepts for a slice of int; \<open>make\<close> panics for a negative or a greater length. Running
  out of memory below that length is not modelled.
\<close>

record platform =
  convert_other :: "float64 \<Rightarrow> int"
  max_len :: int

definition int_of_float64 :: "platform \<Rightarrow> float64 \<Rightarrow> int" where
  "int_of_float64 pf v =
     (case v of
        Finite x \<Rightarrow>
          (let t = (if 0 \<le> x then \<lfloor>x\<rfloor> else \<lceil>x\<rceil>)
           in if is_int t then t else convert_other pf v)
      | _ \<Rightarrow> convert_other pf v)"

definition make_ints :: "platform \<Rightarrow> int \<Rightarrow> panic + int list" where
  "make_ints pf n =
     (if n < 0 \<or> max_len pf < n then Inl MakesliceLenOutOfRange
      else Inr (replicate (nat n) 0))"

section \<open>Pagination.Compute\<close>

text \<open>
  \<open>Compute\<close> on a receiver that is not nil. The loop over \<open>p.Pages\<close> writes each index
  at its own position. After a panic nothing is returned.
\<close>

definition Compute :: "platform \<Rightarrow> Pagination \<Rightarrow> panic + Pagination" where
  "Compute pf p =
     (let p1 = p\<lparr>PageCount := int_of_float64 pf
                 (Ceil (f64_div (float64_of_int (Total p)) (float64_of_int (MaxResults p))))\<rparr>;
          p2 = p1\<lparr>Page := int_of_float64 pf
                 (Ceil (f64_div (float64_of_int (StartAt p1)) (float64_of_int (MaxResults p1))))\<rparr>
      in case make_ints pf (PageCount p2) of
           Inl e \<Rightarrow> Inl e
         | Inr s \<Rightarrow> Inr (p2\<lparr>Pages := fold (\<lambda>i xs. xs[i := int i]) [0..<length s] s\<rparr>))"

text \<open>
  Two platforms, both with 8-byte ints and 2^48 bytes as the largest allocation. On amd64
  a conversion that cannot be held gives the least int; on arm64 it gives 0 for NaN and the
  nearest end of the range otherwise.
\<close>

definition amd64 :: platform where
  "amd64 = \<lparr>convert_other = (\<lambda>v. - (2 ^ 63)), max_len = 2 ^ 45\<rparr>"

definition arm64 :: platform where
  "arm64 =
     \<lparr>convert_other =
        (\<lambda>v. case v of
               NaN \<Rightarrow> 0
             | PInf \<Rightarrow> 2 ^ 63 - 1
             | NInf \<Rightarrow> - (2 ^ 63)
             | Finite x \<Rightarrow> if 0 < x then 2 ^ 63 - 1 else - (2 ^ 63)),
      max_len = 2 ^ 45\<rparr>"

definition zero_Pagination :: Pagination where
  "zero_Pagination =
     \<lparr>Total = 0, StartAt = 0, MaxResults = 0, Page = 0, PageCount = 0, Pages = []\<rparr>"

text \<open>The float64 quotient of the conversion of an int by the conversion of the int 0.\<close>

definition quotient_by_zero :: "int \<Rightarrow> float64" where
  "quotient_by_zero n = (if n = 0 then NaN else if 0 < n then PInf else NInf)"

section \<open>IssueFields.AddVersion and NewIssue\<close>

text \<open>
  The loop of \<open>AddVersion\<close> over \<open>f.Versions\<close>: \<open>Inr True\<close> is its early return.
  \<open>v.Name\<close> is read before \<open>version.Name\<close>, and either pointer may be nil.
\<close>

fun name_found :: "Version option list \<Rightarrow> Version option \<Rightarrow> panic + bool" where
  "name_found [] version = Inr False"
| "name_found (v # vs) version =
     (case v of
        None \<Rightarrow> Inl NilDereference
      | Some v' \<Rightarrow>
          (case version of
             None \<Rightarrow> Inl NilDereference
           | Some version' \<Rightarrow>
               if Version_Name v' = Version_Name version' then Inr True
               else name_found vs version))"

text \<open>
  \<open>AddVersion\<close> on a receiver that is not nil. A nil \<open>Versions\<close> becomes the empty slice
  first; the loop over an empty slice neither returns early nor panics, so after a panic
  \<open>f\<close> is as it was.
\<close>

definition AddVersion :: "'u IssueFields \<Rightarrow> Version option \<Rightarrow> panic + 'u IssueFields" where
  "AddVersion f version =
     (let f1 = (if Versions f = None then f\<lparr>Versions := Some []\<rparr> else f);
          vs = the (Versions f1)
      in case name_found vs version of
           Inl e \<Rightarrow> Inl e
         | Inr True \<Rightarrow> Inr f1
         | Inr False \<Rightarrow> Inr (f1\<lparr>Versions := Some (vs @ [version])\<rparr>))"

text \<open>A sequence of \<open>AddVersion\<close> calls on the same fields; a panic ends it.\<close>

fun AddVersions :: "'u IssueFields \<Rightarrow> Version option list \<Rightarrow> panic + 'u IssueFields" where
  "AddVersions f [] = Inr f"
| "AddVersions f (version # rest) =
     (case AddVersion f version of
        Inl e \<Rightarrow> Inl e
      | Inr f' \<Rightarrow> AddVersions f' rest)"

text \<open>The entries of the version list (none when it is nil), and their names.\<close>

definition entries :: "'u IssueFields \<Rightarrow> Version option list" where
  "entries f = (case Versions f of None \<Rightarrow> [] | Some vs \<Rightarrow> vs)"

fun names :: "Version option list \<Rightarrow> string list" where
  "names [] = []"
| "names (None # vs) = names vs"
| "names (Some v # vs) = Version_Name v # names vs"

text \<open>The zero values of the structs that \<open>NewIssue\<close> fills in part.\<close>

definition zero_Version :: Version where
  "zero_Version =
     \<lparr>Version_Id = [], Version_Self = [], Version_Name = [], Version_Description = [],
      Version_Project = [], Version_ProjectId = 0\<rparr>"

definition zero_IssueType :: IssueType where
  "zero_IssueType =
     \<lparr>IssueType_Self = [], IssueType_Id = [], IssueType_Description = [], IconUrl = [],
      IssueType_Name = [], Subtask = False\<rparr>"

definition zero_JiraProject :: JiraProject where
  "zero_JiraProject =
     \<lparr>JiraProject_Self = [], JiraProject_Id = [], JiraProject_Key = [],
      JiraProject_Name = [], AvatarUrls = []\<rparr>"

definition zero_IssueFields :: "'u IssueFields" where
  "zero_IssueFields =
     \<lparr>IssueFields_IssueType = None, Summary = [], IssueFields_Description = [],
      Reporter = None, Assignee = None, IssueFields_Project = None, Created = [],
      Versions = None, CrashReportId = F32 0, BacktraceHash = [], CrashCount = F32 0\<rparr>"

definition zero_Issue :: "'u Issue" where
  "zero_Issue =
     \<lparr>Issue_Id = [], Issue_Key = [], Issue_Self = [], Issue_Expand = [], Fields = None\<rparr>"

definition NewIssue :: "string \<Rightarrow> string \<Rightarrow> 'u Issue" where
  "NewIssue project issue_type =
     zero_Issue\<lparr>Fields := Some (zero_IssueFields
       \<lparr>IssueFields_IssueType := Some (zero_IssueType\<lparr>IssueType_Name := issue_type\<rparr>),
        IssueFields_Project := Some (zero_JiraProject\<lparr>JiraProject_Key := project\<rparr>),
        Versions := Some []\<rparr>)\<rparr>"

section \<open>Library functions used by the operations\<close>

subsection \<open>net/url.QueryEscape and strconv.Itoa\<close>

text \<open>
  \<open>url.QueryEscape\<close> keeps letters, digits and \<open>- _ . ~\<close>, writes a space as \<open>+\<close> and every
  other byte as \<open>%\<close> followed by its two upper-case hexadecimal digits.
\<close>

definition unreserved :: "char \<Rightarrow> bool" where
  "unreserved c \<longleftrightarrow>
     c \<in> set ''ABCDEFGHIJKLMNOPQRSTUVWXYZabcdefghijklmnopqrstuvwxyz0123456789-_.~''"

definition hex_digit :: "nat \<Rightarrow> char" where
  "hex_digit n = ''0123456789ABCDEF'' ! n"

fun QueryEscape :: "string \<Rightarrow> string" where
  "QueryEscape [] = []"
| "QueryEscape (c # cs) =
     (if unreserved c then [c]
      else if c = CHR '' '' then ''+''
      else [CHR ''%'', hex_digit (of_char c div 16), hex_digit (of_char c mod 16)])
     @ QueryEscape cs"

fun digits :: "nat \<Rightarrow> string" where
  "digits n =
     (if n < 10 then [''0123456789'' ! n]
      else digits (n div 10) @ [''0123456789'' ! (n mod 10)])"

declare digits.simps [simp del]

definition Itoa :: "int \<Rightarrow> string" where
  "Itoa n = (if n < 0 then CHR ''-'' # digits (nat (- n)) else digits (nat n))"

subsection \<open>encoding/json\<close>

text \<open>
  A JSON document. \<open>json.MarshalIndent\<close> builds the document from the struct tags of the
  source and lays it out as text; the layout is the function \<open>render\<close> of the environment.
  A field tagged \<open>omitempty\<close> is left out when it is the empty string, zero, false, a nil
  pointer or an empty slice or map. An error of the encoder is its message.
\<close>

datatype json =
  JNull
  | JBool bool
  | JNumber rat
  | JString string
  | JArray "json list"
  | JObject "(string \<times> json) list"

definition string_field :: "string \<Rightarrow> string \<Rightarrow> (string \<times> json) list" where
  "string_field k s = (if s = [] then [] else [(k, JString s)])"

definition float32_field :: "string \<Rightarrow> float32 \<Rightarrow> string + (string \<times> json) list" where
  "float32_field k x =
     (case x of
        F32 r \<Rightarrow> Inr (if r = 0 then [] else [(k, JNumber r)])
      | F32_NaN \<Rightarrow> Inl ''json: unsupported value: NaN''
      | F32_Inf negative \<Rightarrow>
          Inl (''json: unsupported value: '' @ (if negative then ''-Inf'' else ''+Inf'')))"

definition pointer_field ::
  "string \<Rightarrow> ('a \<Rightarrow> string + json) \<Rightarrow> 'a option \<Rightarrow> string + (string \<times> json) list" where
  "pointer_field k enc p =
     (case p of
        None \<Rightarrow> Inr []
      | Some x \<Rightarrow> (case enc x of Inl e \<Rightarrow> Inl e | Inr doc \<Rightarrow> Inr [(k, doc)]))"

text \<open>The members of an object, field after field; the first error ends the encoding.\<close>

fun members :: "(string + (string \<times> json) list) list \<Rightarrow> string + (string \<times> json) list" where
  "members [] = Inr []"
| "members (Inl e # rest) = Inl e"
| "members (Inr kvs # rest) =
     (case members rest of Inl e \<Rightarrow> Inl e | Inr others \<Rightarrow> Inr (kvs @ others))"

definition object :: "(string + (string \<times> json) list) list \<Rightarrow> string + json" where
  "object fs = (case members fs of Inl e \<Rightarrow> Inl e | Inr kvs \<Rightarrow> Inr (JObject kvs))"

definition Version_json :: "Version \<Rightarrow> json" where
  "Version_json v =
     JObject (string_field ''id'' (Version_Id v) @ string_field ''self'' (Version_Self v) @
       string_field ''name'' (Version_Name v) @
       string_field ''description'' (Version_Description v) @
       string_field ''project'' (Version_Project v) @
       (if Version_ProjectId v = 0 then []
        else [(''projectId'', JNumber (of_int (Version_ProjectId v)))]))"

definition Comment_json :: "Comment option \<Rightarrow> json" where
  "Comment_json c =
     (case c of None \<Rightarrow> JNull | Some c' \<Rightarrow> JObject (string_field ''body'' (Body c')))"

definition IssueType_json :: "IssueType \<Rightarrow> json" where
  "IssueType_json t =
     JObject (string_field ''self'' (IssueType_Self t) @ string_field ''id'' (IssueType_Id t) @
       string_field ''description'' (IssueType_Description t) @
       string_field ''iconUrl'' (IconUrl t) @ string_field ''name'' (IssueType_Name t) @
       (if Subtask t then [(''subTask'', JBool True)] else []))"

definition JiraProject_json :: "JiraProject \<Rightarrow> json" where
  "JiraProject_json p =
     JObject (string_field ''self'' (JiraProject_Self p) @
       string_field ''id'' (JiraProject_Id p) @ string_field ''key'' (JiraProject_Key p) @
       string_field ''name'' (JiraProject_Name p) @
       (if AvatarUrls p = [] then []
        else [(''avatarUrls'', JObject (map (\<lambda>(k, v). (k, JString v)) (AvatarUrls p)))]))"

definition versions_field :: "Version option list option \<Rightarrow> (string \<times> json) list" where
  "versions_field vs =
     (case vs of
        None \<Rightarrow> []
      | Some l \<Rightarrow>
          if l = [] then []
          else [(''versions'',
                 JArray (map (\<lambda>v. case v of None \<Rightarrow> JNull | Some v' \<Rightarrow> Version_json v') l))])"

definition IssueFields_json :: "('u \<Rightarrow> string + json) \<Rightarrow> 'u IssueFields \<Rightarrow> string + json" where
  "IssueFields_json user f =
     object
       [pointer_field ''issuetype'' (\<lambda>t. Inr (IssueType_json t)) (IssueFields_IssueType f),
        Inr (string_field ''summary'' (Summary f)),
        Inr (string_field ''description'' (IssueFields_Description f)),
        pointer_field ''reporter'' user (Reporter f),
        pointer_field ''assignee'' user (Assignee f),
        pointer_field ''project'' (\<lambda>p. Inr (JiraProject_json p)) (IssueFields_Project f),
        Inr (string_field ''created'' (Created f)),
        Inr (versions_field (Versions f)),
        float32_field ''customfield_10021'' (CrashReportId f),
        Inr (string_field ''customfield_10022'' (BacktraceHash f)),
        float32_field ''customfield_10023'' (CrashCount f)]"

definition Issue_json :: "('u \<Rightarrow> string + json) \<Rightarrow> 'u Issue \<Rightarrow> string + json" where
  "Issue_json user i =
     object
       [Inr (string_field ''id'' (Issue_Id i)),
        Inr (string_field ''key'' (Issue_Key i)),
        Inr (string_field ''self'' (Issue_Self i)),
        Inr (string_field ''expand'' (Issue_Expand i)),
        pointer_field ''fields'' (IssueFields_json user) (Fields i)]"

text \<open>The member of an object with a given key, and the keys of an object.\<close>

fun object_member :: "json \<Rightarrow> string \<Rightarrow> json option" where
  "object_member (JObject kvs) k = map_of kvs k"
| "object_member doc k = None"

fun object_keys :: "json \<Rightarrow> string set" where
  "object_keys (JObject kvs) = fst ` set kvs"
| "object_keys doc = {}"

section \<open>The environment and the request executor\<close>

text \<open>
  A request as \<open>buildAndExecRequest\<close> hands it to the HTTP client, and the part of a
  response that the executor reads.
\<close>

record request =
  Method :: string
  Url :: string
  RequestBody :: "string option"
  ContentType :: "string option"
  BasicAuth :: "string \<times> string"

record response =
  ContentEncoding :: string
  RawBody :: string

text \<open>
  What lies outside the program. \<open>create_ok\<close>: whether \<open>os.Create\<close> succeeds for a file
  name. \<open>request_ok\<close>: whether \<open>http.NewRequest\<close> accepts a method and a URL.
  \<open>client_do\<close>: the answer of \<open>j.Client.Do\<close>, \<open>None\<close> when it returns an error.
  \<open>gunzip\<close>: the bytes read through \<open>gzip.NewReader\<close>, or the message of its error.
  \<open>user_json\<close>: the encoding of the undeclared type \<open>User\<close>. \<open>render\<close>: the text of a
  document. \<open>unmarshal_T\<close>: what \<open>json.Unmarshal\<close> leaves in a zero value of type
  \<open>T\<close>, and its error if any. The contents of the two debug files and what is printed are
  left out.
\<close>

record 'u env =
  create_ok :: "string \<Rightarrow> bool"
  request_ok :: "string \<Rightarrow> string \<Rightarrow> bool"
  client_do :: "request \<Rightarrow> response option"
  gunzip :: "string \<Rightarrow> string + string"
  user_json :: "'u \<Rightarrow> string + json"
  render :: "json \<Rightarrow> string"
  unmarshal_SearchResult :: "string \<Rightarrow> 'u SearchResult \<times> string option"
  unmarshal_Issue :: "string \<Rightarrow> 'u Issue \<times> string option"
  unmarshal_Comment :: "string \<Rightarrow> Comment \<times> string option"
  unmarshal_Versions :: "string \<Rightarrow> Version option list \<times> string option"

text \<open>
  \<open>buildAndExecRequest\<close>: the requests handed to the client (none or one), and the panic
  or the bytes returned. A failed \<open>Client.Do\<close> returns nil, the empty byte string.
\<close>

definition buildAndExecRequest ::
  "'u env \<Rightarrow> Jira \<Rightarrow> string \<Rightarrow> string \<Rightarrow> string option \<Rightarrow> request list \<times> (panic + string)" where
  "buildAndExecRequest env j method url body =
     (if body \<noteq> None \<and> \<not> create_ok env ''last_body.txt''
        then ([], Inl (Panic ''could not create last_response.txt''))
      else if \<not> request_ok env method url
        then ([], Inl (Panic ''Error while building jira request''))
      else
        case Auth j of
          None \<Rightarrow> ([], Inl NilDereference)
        | Some auth \<Rightarrow>
            let req = \<lparr>Method = method, Url = url, RequestBody = body,
                       ContentType =
                         (if body \<noteq> None then Some ''application/json;charset=UTF-8''
                          else None),
                       BasicAuth = (Login auth, Password auth)\<rparr>
            in case client_do env req of
                 None \<Rightarrow> ([req], Inr [])
               | Some resp \<Rightarrow>
                   (case (if ContentEncoding resp = ''gzip'' then gunzip env (RawBody resp)
                          else Inr (RawBody resp)) of
                      Inl e \<Rightarrow> ([req], Inl (Panic e))
                    | Inr contents \<Rightarrow>
                        if \<not> create_ok env ''last_response.txt''
                          then ([req], Inl (Panic ''could not create last_response.txt''))
                        else ([req], Inr contents)))"

section \<open>The operations\<close>

text \<open>
  Each operation, on a receiver that is not nil, returns the requests it handed to the
  client and its panic or result. A Go \<open>error\<close> is \<open>Some\<close> of its message, \<open>nil\<close> is
  \<open>None\<close>. \<open>SaveIssue\<close> changes the issue behind its pointer argument: it takes the
  caller's issue (the pointer is not nil) and also returns it as it is afterwards.
  \<open>CreateIssue\<close>, \<open>CreateVersion\<close>, \<open>UserActivity\<close> and \<open>Activity\<close> are left out.
\<close>

definition zero_SearchResult :: "'u SearchResult" where
  "zero_SearchResult =
     \<lparr>SearchResult_Expand = [], SearchResult_StartAt = 0, SearchResult_MaxResults = 0,
      SearchResult_Total = 0, Issues = [], SearchResult_Pagination = None\<rparr>"

definition quote :: char where
  "quote = CHR 0x22"

definition newline :: char where
  "newline = CHR 0x0A"

definition tab :: char where
  "tab = CHR 0x09"

definition IssuesAssignedTo ::
  "platform \<Rightarrow> 'u env \<Rightarrow> Jira \<Rightarrow> string \<Rightarrow> int \<Rightarrow> int \<Rightarrow>
     request list \<times> (panic + 'u SearchResult)" where
  "IssuesAssignedTo pf env j user maxResults startAt =
     (let url = BaseUrl j @ ApiPath j @ ''/search?jql=assignee='' @ [quote] @ QueryEscape user
                  @ [quote] @ ''&startAt='' @ Itoa startAt @ ''&maxResults='' @ Itoa maxResults;
          (sent, r) = buildAndExecRequest env j ''GET'' url None
      in case r of
           Inl e \<Rightarrow> (sent, Inl e)
         | Inr contents \<Rightarrow>
             let (issues, err) = unmarshal_SearchResult env contents;
                 pagination = zero_Pagination
                   \<lparr>Total := SearchResult_Total issues,
                    StartAt := SearchResult_StartAt issues,
                    MaxResults := SearchResult_MaxResults issues\<rparr>
             in case Compute pf pagination of
                  Inl e \<Rightarrow> (sent, Inl e)
                | Inr pagination' \<Rightarrow>
                    (sent, Inr (issues\<lparr>SearchResult_Pagination := Some pagination'\<rparr>)))"

definition Issue :: "'u env \<Rightarrow> Jira \<Rightarrow> string \<Rightarrow> request list \<times> (panic + 'u Issue)" where
  "Issue env j id' =
     (let url = BaseUrl j @ ApiPath j @ ''/issue/'' @ id';
          (sent, r) = buildAndExecRequest env j ''GET'' url None
      in case r of
           Inl e \<Rightarrow> (sent, Inl e)
         | Inr contents \<Rightarrow> (sent, Inr (fst (unmarshal_Issue env contents))))"

definition SaveIssue ::
  "'u env \<Rightarrow> Jira \<Rightarrow> 'u Issue \<Rightarrow> 'u Issue \<times> request list \<times> (panic + string option)" where
  "SaveIssue env j issue =
     (case Fields issue of
        None \<Rightarrow> (issue, [], Inl NilDereference)
      | Some f \<Rightarrow>
          let issue' = issue\<lparr>Fields := Some (f\<lparr>Reporter := None, Assignee := None,
                                                Created := []\<rparr>)\<rparr>
          in case Issue_json (user_json env) issue' of
               Inl err \<Rightarrow> (issue', [], Inr (Some err))
             | Inr doc \<Rightarrow>
                 let url = BaseUrl j @ ApiPath j @ ''/issue/'' @ Issue_Key issue';
                     (sent, r) = buildAndExecRequest env j ''PUT'' url (Some (render env doc))
                 in case r of
                      Inl e \<Rightarrow> (issue', sent, Inl e)
                    | Inr contents \<Rightarrow>
                        if length contents > 0
                          then (issue', sent, Inr (Some (''error: '' @ contents)))
                        else (issue', sent, Inr None))"

definition Search ::
  "'u env \<Rightarrow> Jira \<Rightarrow> string \<Rightarrow> int \<Rightarrow>
     request list \<times> (panic + 'u SearchResult \<times> string option)" where
  "Search env j jql maxResults =
     (let url = BaseUrl j @ ApiPath j @ ''/search?jql='' @ QueryEscape jql
                  @ ''&maxResults='' @ Itoa maxResults;
          (sent, r) = buildAndExecRequest env j ''GET'' url None
      in case r of
           Inl e \<Rightarrow> (sent, Inl e)
         | Inr contents \<Rightarrow> (sent, Inr (unmarshal_SearchResult env contents)))"

definition AddComment ::
  "'u env \<Rightarrow> Jira \<Rightarrow> string \<Rightarrow> Comment option \<Rightarrow>
     request list \<times> (panic + Comment option \<times> string option)" where
  "AddComment env j issue_key comment =
     (let encoded = render env (Comment_json comment);
          url = BaseUrl j @ ApiPath j @ ''/issue/'' @ issue_key @ ''/comment'';
          (sent, r) = buildAndExecRequest env j ''POST'' url (Some encoded)
      in case r of
           Inl e \<Rightarrow> (sent, Inl e)
         | Inr contents \<Rightarrow>
             (case unmarshal_Comment env contents of
                (result, Some err) \<Rightarrow> (sent, Inr (None, Some err))
              | (result, None) \<Rightarrow> (sent, Inr (Some result, None))))"

definition GetAllVersions ::
  "'u env \<Rightarrow> Jira \<Rightarrow> string \<Rightarrow>
     request list \<times> (panic + Version option list \<times> string option)" where
  "GetAllVersions env j productKey =
     (let url = BaseUrl j @ ApiPath j @ ''/project/'' @ productKey @ ''/versions'';
          (sent, r) = buildAndExecRequest env j ''GET'' url None
      in case r of
           Inl e \<Rightarrow> (sent, Inl e)
         | Inr contents \<Rightarrow> (sent, Inr (unmarshal_Versions env contents)))"

text \<open>The text that \<open>AddVersionToIssue\<close> formats around the id of the version.\<close>

definition add_version_body :: "string \<Rightarrow> string" where
  "add_version_body id' =
     [newline, tab, tab] @ ''{'' @
     [newline, tab, tab, tab, quote] @ ''update'' @ [quote] @ '' : {'' @
     [newline, tab, tab, tab, tab, quote] @ ''versions'' @ [quote] @ '' : [ { '' @ [quote]
       @ ''add'' @ [quote] @ '' : { '' @ [quote] @ ''id'' @ [quote] @ '' : '' @ [quote] @ id'
       @ [quote] @ '' } } ]'' @
     [newline, tab, tab, tab] @ ''}'' @
     [newline, tab, tab] @ ''}'' @
     [newline, tab]"

definition AddVersionToIssue ::
  "'u env \<Rightarrow> Jira \<Rightarrow> IssueRef option \<Rightarrow> Version option \<Rightarrow>
     request list \<times> (panic + string option)" where
  "AddVersionToIssue env j issue version =
     (case version of
        None \<Rightarrow> ([], Inl NilDereference)
      | Some v \<Rightarrow>
          let encoded = add_version_body (Version_Id v)
          in case issue of
               None \<Rightarrow> ([], Inl NilDereference)
             | Some i \<Rightarrow>
                 let url = BaseUrl j @ ApiPath j @ ''/issue/'' @ IssueRef_Key i;
                     (sent, r) = buildAndExecRequest env j ''PUT'' url (Some encoded)
                 in case r of
                      Inl e \<Rightarrow> (sent, Inl e)
                    | Inr contents \<Rightarrow>
                        if length contents = 0 then (sent, Inr None)
                        else (sent, Inr (Some (''error: '' @ contents))))"

section \<open>Example inputs\<close>

text \<open>
  A client configuration, and an environment in which every file can be created, every
  request is well formed and is answered with the given body (not answered at all for
  \<open>None\<close>), and a search response decodes to the given result.
\<close>

definition example_Jira :: Jira where
  "example_Jira =
     \<lparr>BaseUrl = ''https://jira.example.com'', ApiPath = ''/rest/api/2'',
      ActivityPath = ''/activity'', Auth = Some \<lparr>Login = ''user'', Password = ''secret''\<rparr>\<rparr>"

definition example_env :: "string option \<Rightarrow> 'u SearchResult \<Rightarrow> 'u env" where
  "example_env answer found =
     \<lparr>create_ok = (\<lambda>name. True),
      request_ok = (\<lambda>method url. True),
      client_do = (\<lambda>req. map_option (\<lambda>body. \<lparr>ContentEncoding = [], RawBody = body\<rparr>) answer),
      gunzip = Inr,
      user_json = (\<lambda>user. Inr JNull),
      render = (\<lambda>doc. ''{}''),
      unmarshal_SearchResult = (\<lambda>contents. (found, None)),
      unmarshal_Issue = (\<lambda>contents. (zero_Issue, None)),
      unmarshal_Comment = (\<lambda>contents. (\<lparr>Body = []\<rparr>, None)),
      unmarshal_Versions = (\<lambda>contents. ([], None))\<rparr>"

section \<open>Properties of float64 rounding and of Compute\<close>

subsection \<open>Rounding\<close>

lemma pow2_pos [simp]: "0 < (2::rat) powi k"
  by (simp add: power_int_def)

lemma pow2_add: "(2::rat) powi (a + b) = 2 powi a * 2 powi b"
  by (simp add: power_int_add)

lemma pow2_mono: "a \<le> b \<Longrightarrow> (2::rat) powi a \<le> 2 powi b"
  by (rule power_int_increasing) simp_all

lemma pow2_strict_mono: "a < b \<Longrightarrow> (2::rat) powi a < 2 powi b"
  by (rule power_int_strict_increasing) simp_all

lemma ilog2_bounds:
  assumes "0 < x"
  shows "2 powi (ilog2 x) \<le> x \<and> x < 2 powi (ilog2 x + 1)"
proof -
  obtain p q where pq: "quotient_of x = (p, q)" by (cases "quotient_of x")
  then have q: "0 < q" and x: "x = of_int p / of_int q"
    by (auto dest: quotient_of_denom_pos quotient_of_div)
  with assms have p: "0 < p"
    by (simp add: zero_less_divide_iff)
  define bp where "bp = floorlog 2 (nat p)"
  define bq where "bq = floorlog 2 (nat q)"
  define k where "k = int bp - int bq"
  have bp: "2 ^ (bp - 1) \<le> nat p" "nat p < 2 ^ bp" and bq: "2 ^ (bq - 1) \<le> nat q" "nat q < 2 ^ bq"
    using floorlog_bounds [of "nat p" 2] floorlog_bounds [of "nat q" 2] p q
    by (simp_all add: bp_def bq_def)
  have bp0: "0 < bp" and bq0: "0 < bq"
    using p q by (simp_all add: bp_def bq_def floorlog_def)
  have P1: "(2::rat) powi (int bp - 1) \<le> of_int p"
  proof -
    have "(2::int) ^ (bp - 1) \<le> p" using bp(1) p by (simp add: le_nat_iff)
    then have "(of_int (2 ^ (bp - 1)) :: rat) \<le> of_int p" by (simp only: of_int_le_iff)
    then have le: "(2::rat) ^ (bp - 1) \<le> of_int p" by simp
    have e: "int bp - 1 = int (bp - 1)" using bp0 by simp
    show ?thesis unfolding e power_int_of_nat by (rule le)
  qed
  have P2: "(of_int p :: rat) < 2 powi (int bp)"
  proof -
    have "p < (2::int) ^ bp" using bp(2) p by (simp add: nat_less_iff)
    then have "(of_int p :: rat) < of_int (2 ^ bp)" by (simp only: of_int_less_iff)
    then show ?thesis by simp
  qed
  have Q1: "(2::rat) powi (int bq - 1) \<le> of_int q"
  proof -
    have "(2::int) ^ (bq - 1) \<le> q" using bq(1) q by (simp add: le_nat_iff)
    then have "(of_int (2 ^ (bq - 1)) :: rat) \<le> of_int q" by (simp only: of_int_le_iff)
    then have le: "(2::rat) ^ (bq - 1) \<le> of_int q" by simp
    have e: "int bq - 1 = int (bq - 1)" using bq0 by simp
    show ?thesis unfolding e power_int_of_nat by (rule le)
  qed
  have Q2: "(of_int q :: rat) < 2 powi (int bq)"
  proof -
    have "q < (2::int) ^ bq" using bq(2) q by (simp add: nat_less_iff)
    then have "(of_int q :: rat) < of_int (2 ^ bq)" by (simp only: of_int_less_iff)
    then show ?thesis by simp
  qed
  have qpos: "(0::rat) < of_int q" using q by simp
  have lower: "2 powi (k - 1) \<le> x"
  proof -
    have "(2::rat) powi (k - 1) * of_int q \<le> 2 powi (k - 1) * 2 powi (int bq)"
      using Q2 by (intro mult_left_mono) simp_all
    also have "\<dots> = 2 powi (int bp - 1)"
      using pow2_add [of "k - 1" "int bq"] by (simp add: k_def)
    also have "\<dots> \<le> of_int p" by (rule P1)
    finally show ?thesis
      using qpos by (simp add: x pos_le_divide_eq)
  qed
  have upper: "x < 2 powi (k + 1)"
  proof -
    have "(of_int p :: rat) < 2 powi (int bp)" by (rule P2)
    also have "\<dots> = 2 powi (k + 1) * 2 powi (int bq - 1)"
      using pow2_add [of "k + 1" "int bq - 1"] by (simp add: k_def)
    also have "\<dots> \<le> 2 powi (k + 1) * of_int q"
      using Q1 by (intro mult_left_mono) simp_all
    finally show ?thesis
      using qpos by (simp add: x pos_divide_less_eq)
  qed
  have il: "ilog2 x = (if 2 powi k \<le> x then k else k - 1)"
    by (simp add: ilog2_def pq k_def bp_def bq_def)
  show ?thesis
  proof (cases "2 powi k \<le> x")
    case True
    with il upper show ?thesis by simp
  next
    case False
    with il lower show ?thesis by simp
  qed
qed

lemma ilog2_unique:
  assumes "0 < x" and "2 powi e \<le> x" and "x < 2 powi (e + 1)"
  shows "ilog2 x = e"
proof (rule ccontr)
  assume ne: "ilog2 x \<noteq> e"
  from ilog2_bounds [OF assms(1)]
  have b: "2 powi (ilog2 x) \<le> x" "x < 2 powi (ilog2 x + 1)" by simp_all
  show False
  proof (cases "ilog2 x < e")
    case True
    then have "(2::rat) powi (ilog2 x + 1) \<le> 2 powi e" by (intro pow2_mono) simp
    with b(2) assms(2) show False by simp
  next
    case False
    with ne have "e + 1 \<le> ilog2 x" by simp
    then have "(2::rat) powi (e + 1) \<le> 2 powi (ilog2 x)" by (rule pow2_mono)
    with b(1) assms(3) show False by simp
  qed
qed

lemma ilog2_le:
  assumes "0 < x" and "x < 2 powi (e + 1)"
  shows "ilog2 x \<le> e"
proof (rule ccontr)
  assume "\<not> ilog2 x \<le> e"
  then have "e + 1 \<le> ilog2 x" by simp
  then have "(2::rat) powi (e + 1) \<le> 2 powi (ilog2 x)" by (rule pow2_mono)
  with ilog2_bounds [OF assms(1)] assms(2) show False by simp
qed

lemma ilog2_ge:
  assumes "0 < x" and "2 powi e \<le> x"
  shows "e \<le> ilog2 x"
proof (rule ccontr)
  assume "\<not> e \<le> ilog2 x"
  then have "ilog2 x + 1 \<le> e" by simp
  then have "(2::rat) powi (ilog2 x + 1) \<le> 2 powi e" by (rule pow2_mono)
  with ilog2_bounds [OF assms(1)] assms(2) show False by simp
qed

lemma round_even_of_int [simp]: "round_even (of_int n) = n"
  by (simp add: round_even_def)

lemma round_even_ge:
  assumes "of_int m \<le> t"
  shows "m \<le> round_even t"
proof -
  from assms have "m \<le> \<lfloor>t\<rfloor>" by (simp add: le_floor_iff)
  then show ?thesis by (simp add: round_even_def Let_def)
qed

lemma round_even_le:
  assumes "t \<le> of_int m"
  shows "round_even t \<le> m"
proof (cases "t = of_int m")
  case True
  then show ?thesis by simp
next
  case False
  with assms have "t < of_int m" by simp
  then have "\<lfloor>t\<rfloor> < m" by (simp add: floor_less_iff)
  then show ?thesis by (simp add: round_even_def Let_def)
qed

lemma round_even_gt:
  assumes "of_int m + 1 / 2 < t"
  shows "m < round_even t"
proof (cases "of_int (m + 1) \<le> t")
  case True
  from round_even_ge [OF this] show ?thesis by simp
next
  case False
  then have "t < of_int (m + 1)" by simp
  then have "\<lfloor>t\<rfloor> < m + 1" by (simp only: floor_less_iff)
  moreover from assms have "m \<le> \<lfloor>t\<rfloor>" by (simp add: le_floor_iff)
  ultimately have "\<lfloor>t\<rfloor> = m" by simp
  with assms show ?thesis by (simp add: round_even_def Let_def)
qed

lemma ulp_pos [simp]: "0 < ulp x"
  by (simp add: ulp_def)

lemma ulp_nonneg [simp]: "0 \<le> ulp x"
  by (simp add: ulp_def)

lemma ulp_nonzero [simp]: "ulp x \<noteq> 0"
  by (simp add: ulp_def)

lemma ulp_normal: "0 < x \<Longrightarrow> - 1022 \<le> ilog2 x \<Longrightarrow> ulp x = 2 powi (ilog2 x - 52)"
  by (simp add: ulp_def max_def)

lemma nearest_ge:
  assumes "of_int a * ulp x \<le> x"
  shows "of_int a * ulp x \<le> nearest x"
proof -
  from assms have "of_int a \<le> x / ulp x"
    by (simp add: pos_le_divide_eq)
  then have "a \<le> round_even (x / ulp x)" by (rule round_even_ge)
  then have "(of_int a :: rat) \<le> of_int (round_even (x / ulp x))" by (simp only: of_int_le_iff)
  then show ?thesis
    unfolding nearest_def by (intro mult_right_mono) simp_all
qed

lemma nearest_le:
  assumes "x \<le> of_int b * ulp x"
  shows "nearest x \<le> of_int b * ulp x"
proof -
  from assms have "x / ulp x \<le> of_int b"
    by (simp add: pos_divide_le_eq)
  then have "round_even (x / ulp x) \<le> b" by (rule round_even_le)
  then have "(of_int (round_even (x / ulp x)) :: rat) \<le> of_int b" by (simp only: of_int_le_iff)
  then show ?thesis
    unfolding nearest_def by (intro mult_right_mono) simp_all
qed

lemma nearest_gt:
  assumes "of_int a * ulp x + ulp x / 2 < x"
  shows "of_int a * ulp x < nearest x"
proof -
  have "(of_int a + 1 / 2) * ulp x < x"
    using assms by (simp add: algebra_simps)
  then have "of_int a + 1 / 2 < x / ulp x"
    by (simp add: pos_less_divide_eq)
  then have "a < round_even (x / ulp x)" by (rule round_even_gt)
  then have "(of_int a :: rat) < of_int (round_even (x / ulp x))" by (simp only: of_int_less_iff)
  then show ?thesis
    unfolding nearest_def by (intro mult_strict_right_mono) simp_all
qed

lemma nearest_exact:
  assumes "x = of_int a * ulp x"
  shows "nearest x = x"
proof -
  have "x / ulp x = of_int a"
    using assms by (simp add: nonzero_divide_eq_eq)
  then have "nearest x = of_int a * ulp x"
    by (simp add: nearest_def)
  with assms show ?thesis by simp
qed

lemma pow_less_huge: "k < 1024 \<Longrightarrow> (2::rat) ^ k < huge"
  unfolding huge_def by (rule power_strict_increasing) simp_all

lemma round_f64_finite:
  assumes "0 < x" and "nearest x < huge"
  shows "round_f64 x = Finite (nearest x)"
proof -
  have "of_int 0 * ulp x \<le> x" using assms(1) by simp
  from nearest_ge [OF this] have "0 \<le> nearest x" by simp
  with assms show ?thesis by (simp add: round_f64_def)
qed

text \<open>An integer is a multiple of the unit in the last place of any x below 2^53.\<close>

lemma int_on_grid:
  assumes "0 < x" and "- 1022 \<le> ilog2 x" and "ilog2 x \<le> 52"
  shows "\<exists>a. (of_int c :: rat) = of_int a * ulp x"
proof -
  define n where "n = nat (52 - ilog2 x)"
  have "(2::rat) powi (int n) * 2 powi (ilog2 x - 52) = 2 powi (int n + (ilog2 x - 52))"
    by (simp only: pow2_add)
  also have "int n + (ilog2 x - 52) = 0" using assms(3) by (simp add: n_def)
  finally have "(2::rat) ^ n * ulp x = 1"
    using assms by (simp add: ulp_normal)
  then have "(of_int c :: rat) = of_int (c * 2 ^ n) * ulp x"
    by (simp add: mult.assoc)
  then show ?thesis ..
qed

lemma round_f64_bracket:
  assumes "0 < x" and "- 1022 \<le> ilog2 x" and "of_int c - 1 < x" and "x \<le> of_int c"
    and "c < 2 ^ 53" and "2 powi (ilog2 x - 53) < x - (of_int c - 1)"
  shows "\<exists>r. round_f64 x = Finite r \<and> of_int c - 1 < r \<and> r \<le> of_int c"
proof -
  have c53: "(of_int c :: rat) < 2 ^ 53"
  proof -
    from assms(5) have "(of_int c :: rat) < of_int (2 ^ 53)" by (simp only: of_int_less_iff)
    then show ?thesis by simp
  qed
  with assms(4) have "x < 2 powi (52 + 1)" by simp
  with assms(1) have e52: "ilog2 x \<le> 52" by (rule ilog2_le)
  from int_on_grid [OF assms(1,2) e52, of c]
  obtain b where b: "(of_int c :: rat) = of_int b * ulp x" ..
  from int_on_grid [OF assms(1,2) e52, of "c - 1"]
  obtain a where a: "(of_int (c - 1) :: rat) = of_int a * ulp x" ..
  have upper: "nearest x \<le> of_int c"
    using nearest_le [of x b] assms(4) b by simp
  have "ulp x / 2 = 2 powi (ilog2 x - 53)"
    using pow2_add [of "ilog2 x - 52" "- 1"] assms(1,2) by (simp add: ulp_normal)
  with assms(6) have "of_int a * ulp x + ulp x / 2 < x"
    using a by simp
  from nearest_gt [OF this] have lower: "of_int c - 1 < nearest x"
    using a by simp
  have "nearest x < huge"
  proof -
    note upper
    also note c53
    also have "(2::rat) ^ 53 < huge" by (rule pow_less_huge) simp
    finally show ?thesis .
  qed
  with assms(1) have "round_f64 x = Finite (nearest x)" by (rule round_f64_finite)
  with lower upper show ?thesis by blast
qed

lemma rat_of_int_less_pow: "n < 2 ^ k \<Longrightarrow> (of_int n :: rat) < 2 ^ k"
proof -
  assume "n < 2 ^ k"
  then have "(of_int n :: rat) < of_int (2 ^ k)" by (simp only: of_int_less_iff)
  then show ?thesis by simp
qed

lemma rat_of_int_ge_pow: "2 ^ k \<le> n \<Longrightarrow> (2::rat) ^ k \<le> of_int n"
proof -
  assume "2 ^ k \<le> n"
  then have "(of_int (2 ^ k) :: rat) \<le> of_int n" by (simp only: of_int_le_iff)
  then show ?thesis by simp
qed

lemma float64_of_int_exact:
  assumes "0 \<le> n" and "n < 2 ^ 53"
  shows "float64_of_int n = Finite (of_int n)"
proof (cases "n = 0")
  case True
  then show ?thesis by (simp add: float64_of_int_def round_f64_def)
next
  case False
  define x :: rat where "x = of_int n"
  from False assms(1) have "1 \<le> n" by simp
  then have x1: "1 \<le> x" by (simp add: x_def)
  then have x0: "0 < x" by simp
  have "2 powi 0 \<le> x" using x1 by simp
  with x0 have e0: "0 \<le> ilog2 x" by (rule ilog2_ge)
  have "x < 2 powi (52 + 1)"
    using rat_of_int_less_pow [OF assms(2)] by (simp add: x_def)
  with x0 have e52: "ilog2 x \<le> 52" by (rule ilog2_le)
  from e0 have e1022: "- 1022 \<le> ilog2 x" by simp
  from int_on_grid [OF x0 e1022 e52, of n]
  obtain a where "x = of_int a * ulp x" unfolding x_def ..
  then have nx: "nearest x = x" by (rule nearest_exact)
  have "x < 2 ^ 53"
    unfolding x_def by (rule rat_of_int_less_pow [OF assms(2)])
  then have "nearest x < 2 ^ 53" by (simp only: nx)
  also have "(2::rat) ^ 53 < huge" by (rule pow_less_huge) simp
  finally have "nearest x < huge" .
  with x0 have "round_f64 x = Finite (nearest x)" by (rule round_f64_finite)
  then have "round_f64 x = Finite x" by (simp only: nx)
  then show ?thesis by (simp add: float64_of_int_def x_def)
qed

lemma float64_of_int_large:
  assumes "2 ^ 53 \<le> n" and "n < 2 ^ 63"
  shows "\<exists>r. float64_of_int n = Finite r \<and> 2 ^ 53 \<le> r \<and> r \<le> 2 ^ 63"
proof -
  define x :: rat where "x = of_int n"
  define e where "e = ilog2 x"
  have lo: "(2::rat) ^ 53 \<le> x" and hi: "x < 2 ^ 63"
    using rat_of_int_ge_pow [OF assms(1)] rat_of_int_less_pow [OF assms(2)]
    by (simp_all add: x_def)
  have x0: "0 < x"
  proof -
    have "(0::rat) < 2 ^ 53" by simp
    with lo show ?thesis by linarith
  qed
  have "2 powi 53 \<le> x" using lo by simp
  with x0 have e53: "53 \<le> e" unfolding e_def by (rule ilog2_ge)
  have "x < 2 powi (62 + 1)" using hi by simp
  with x0 have e62: "e \<le> 62" unfolding e_def by (rule ilog2_le)
  have u: "ulp x = 2 powi (e - 52)"
    using x0 e53 by (simp add: ulp_normal e_def)
  have b: "2 powi e \<le> x" "x < 2 powi (e + 1)"
    using ilog2_bounds [OF x0] by (simp_all add: e_def)
  have g1: "(2::rat) ^ 53 = of_int (2 ^ nat (105 - e)) * ulp x"
  proof -
    have A: "(2::rat) ^ nat (105 - e) * 2 powi (e - 52)
        = 2 powi (int (nat (105 - e)) + (e - 52))"
      by (simp only: pow2_add power_int_of_nat)
    have B: "int (nat (105 - e)) + (e - 52) = 53" using e62 by simp
    show ?thesis
      by (simp only: of_int_power of_int_numeral u A B power_int_numeral)
  qed
  have g2: "(2::rat) powi (e + 1) = of_int (2 ^ 53) * ulp x"
  proof -
    have "(2::rat) powi 53 * 2 powi (e - 52) = 2 powi (53 + (e - 52))"
      by (simp only: pow2_add)
    also have "53 + (e - 52) = e + 1" by simp
    finally show ?thesis by (simp add: u)
  qed
  have "of_int (2 ^ nat (105 - e)) * ulp x \<le> x" using lo g1 by simp
  from nearest_ge [OF this] have low: "2 ^ 53 \<le> nearest x" using g1 by simp
  have "x \<le> of_int (2 ^ 53) * ulp x" using b(2) g2 by simp
  from nearest_le [OF this] have "nearest x \<le> 2 powi (e + 1)" using g2 by simp
  also have "(2::rat) powi (e + 1) \<le> 2 powi 63"
    using e62 by (intro pow2_mono) simp
  finally have up: "nearest x \<le> 2 ^ 63" by simp
  note up
  also have "(2::rat) ^ 63 < huge" by (rule pow_less_huge) simp
  finally have "nearest x < huge" .
  with x0 have "round_f64 x = Finite (nearest x)" by (rule round_f64_finite)
  with low up show ?thesis by (simp add: float64_of_int_def x_def)
qed

lemma float64_of_int_pos:
  assumes "0 < n" and "n < 2 ^ 63"
  shows "\<exists>r. float64_of_int n = Finite r \<and> 0 < r"
proof (cases "n < 2 ^ 53")
  case True
  with assms(1) show ?thesis by (simp add: float64_of_int_exact)
next
  case False
  then have "2 ^ 53 \<le> n" by simp
  from float64_of_int_large [OF this assms(2)]
  obtain r where r: "float64_of_int n = Finite r" "2 ^ 53 \<le> r" by blast
  have "(0::rat) < 2 ^ 53" by simp
  with r(2) have "0 < r" by linarith
  with r(1) show ?thesis by blast
qed

text \<open>The quotient of two integers below 2^53: rounding does not reach the integer below.\<close>

lemma round_f64_int_quotient:
  assumes a: "0 < a" "a < 2 ^ 53" and b: "0 < b" "b < 2 ^ 53"
  shows "\<exists>r. round_f64 (of_int a / of_int b) = Finite r \<and>
           \<lceil>r\<rceil> = \<lceil>(of_int a / of_int b :: rat)\<rceil>"
proof -
  define x :: rat where "x = of_int a / of_int b"
  define c where "c = \<lceil>x\<rceil>"
  have ra: "(0::rat) < of_int a" and rb: "(0::rat) < of_int b"
    using a(1) b(1) by simp_all
  have a53: "(of_int a :: rat) < 2 ^ 53" and b53: "(of_int b :: rat) < 2 ^ 53"
    using a(2) b(2) by (simp_all add: rat_of_int_less_pow)
  have x0: "0 < x" using ra rb by (simp add: x_def)
  have c1: "of_int c - 1 < x" and c2: "x \<le> of_int c"
    using ceiling_correct [of x] by (simp_all add: c_def)
  have "(1::rat) \<le> of_int b" using b(1) by simp
  then have "x \<le> of_int a"
    using ra rb by (simp add: x_def pos_divide_le_eq)
  then have "c \<le> a" unfolding c_def by (simp only: ceiling_le_iff)
  with a(2) have c53: "c < 2 ^ 53" by simp
  have xb: "x * of_int b = of_int a"
    using rb by (simp add: x_def)
  have low: "1 / of_int b \<le> x - (of_int c - 1)"
  proof -
    have "(of_int c - 1) * of_int b < x * of_int b"
      using c1 rb by (simp only: mult_strict_right_mono)
    then have "(of_int ((c - 1) * b) :: rat) < of_int a"
      by (simp add: xb)
    then have "(c - 1) * b < a" by (simp only: of_int_less_iff)
    then have "1 \<le> a - (c - 1) * b" by simp
    then have "(of_int 1 :: rat) \<le> of_int (a - (c - 1) * b)" by (simp only: of_int_le_iff)
    then have "1 \<le> x * of_int b - (of_int c - 1) * of_int b"
      by (simp add: xb)
    then have "1 \<le> (x - (of_int c - 1)) * of_int b"
      by (simp add: algebra_simps)
    then show ?thesis
      using rb by (simp add: pos_divide_le_eq)
  qed
  have small: "x / 2 ^ 53 < 1 / of_int b"
  proof -
    have "x / 2 ^ 53 = (of_int a / 2 ^ 53) / of_int b"
      by (simp add: x_def)
    also have "\<dots> < 1 / of_int b"
      using a53 rb by (intro divide_strict_right_mono) simp_all
    finally show ?thesis .
  qed
  have "2 powi (- 53) \<le> x"
  proof -
    have "(1::rat) \<le> of_int a" using a(1) by simp
    then have "1 / of_int b \<le> x"
      using rb by (simp add: x_def divide_right_mono)
    moreover have "(1::rat) / 2 ^ 53 \<le> 1 / of_int b"
      using b53 rb by (intro divide_left_mono) simp_all
    moreover have "(2::rat) powi (- 53) = 1 / 2 ^ 53"
      by (simp add: power_int_minus_divide)
    ultimately show ?thesis by linarith
  qed
  with x0 have "- 53 \<le> ilog2 x" by (rule ilog2_ge)
  then have e: "- 1022 \<le> ilog2 x" by simp
  have gap: "2 powi (ilog2 x - 53) < x - (of_int c - 1)"
  proof -
    have "(2::rat) powi (ilog2 x - 53) = 2 powi (ilog2 x) * 2 powi (- 53)"
      using pow2_add [of "ilog2 x" "- 53"] by simp
    also have "\<dots> \<le> x * 2 powi (- 53)"
      using ilog2_bounds [OF x0] by (intro mult_right_mono) simp_all
    also have "\<dots> = x / 2 ^ 53"
      by (simp add: power_int_minus_divide)
    also note small
    also note low
    finally show ?thesis .
  qed
  from round_f64_bracket [OF x0 e c1 c2 c53 gap]
  obtain r where r: "round_f64 x = Finite r" "of_int c - 1 < r" "r \<le> of_int c" by blast
  from r(2,3) have "\<lceil>r\<rceil> = c" by (rule ceiling_unique)
  with r(1) show ?thesis by (simp add: x_def c_def)
qed

text \<open>A quotient between 2^-63 and 1 is rounded to a value above 0 and at most 1.\<close>

lemma round_f64_below_one:
  assumes "2 powi (- 63) \<le> x" and "x \<le> 1"
  shows "\<exists>r. round_f64 x = Finite r \<and> \<lceil>r\<rceil> = 1"
proof -
  have "(0::rat) < 2 powi (- 63)" by simp
  with assms(1) have x0: "0 < x" by linarith
  from x0 assms(1) have "- 63 \<le> ilog2 x" by (rule ilog2_ge)
  then have e: "- 1022 \<le> ilog2 x" by simp
  have c1: "of_int 1 - 1 < x" using x0 by simp
  have c2: "x \<le> of_int 1" using assms(2) by simp
  have c53: "(1::int) < 2 ^ 53" by simp
  have gap: "2 powi (ilog2 x - 53) < x - (of_int 1 - 1)"
  proof -
    have "(2::rat) powi (ilog2 x - 53) < 2 powi (ilog2 x)"
      by (rule pow2_strict_mono) simp
    also have "\<dots> \<le> x" using ilog2_bounds [OF x0] by simp
    finally show ?thesis by simp
  qed
  from round_f64_bracket [OF x0 e c1 c2 c53 gap]
  obtain r where r: "round_f64 x = Finite r" "of_int 1 - 1 < r" "r \<le> of_int 1" by blast
  from r(2,3) have "\<lceil>r\<rceil> = 1" by (rule ceiling_unique)
  with r(1) show ?thesis by blast
qed

lemma quotient_ceiling:
  assumes a: "0 \<le> a" "a < 2 ^ 53" and b: "0 < b" "b < 2 ^ 63"
  shows "\<exists>r. f64_div (float64_of_int a) (float64_of_int b) = Finite r \<and>
           \<lceil>r\<rceil> = \<lceil>(of_int a / of_int b :: rat)\<rceil>"
proof (cases "a = 0")
  case True
  from float64_of_int_pos [OF b] obtain r where "float64_of_int b = Finite r" "0 < r"
    by blast
  with True show ?thesis
    by (simp add: float64_of_int_exact round_f64_def)
next
  case False
  with a(1) have a0: "0 < a" by simp
  have fa: "float64_of_int a = Finite (of_int a)"
    using a by (rule float64_of_int_exact)
  show ?thesis
  proof (cases "b < 2 ^ 53")
    case True
    with b(1) have fb: "float64_of_int b = Finite (of_int b)"
      by (simp add: float64_of_int_exact)
    from round_f64_int_quotient [OF a0 a(2) b(1) True] b(1) show ?thesis
      by (simp add: fa fb)
  next
    case False
    then have big: "2 ^ 53 \<le> b" by simp
    from float64_of_int_large [OF big b(2)]
    obtain d where d: "float64_of_int b = Finite d" "2 ^ 53 \<le> d" "d \<le> 2 ^ 63" by blast
    have d0: "0 < d"
    proof -
      have "(0::rat) < 2 ^ 53" by simp
      with d(2) show ?thesis by linarith
    qed
    have ra: "(1::rat) \<le> of_int a" using a0 by simp
    have a53: "(of_int a :: rat) < 2 ^ 53" using a(2) by (rule rat_of_int_less_pow)
    have lo: "2 powi (- 63) \<le> of_int a / d"
    proof -
      have "(2::rat) powi (- 63) = 1 / 2 ^ 63" by (simp add: power_int_minus_divide)
      also have "\<dots> \<le> 1 / d" using d(3) d0 by (intro divide_left_mono) simp_all
      also have "\<dots> \<le> of_int a / d" using ra d0 by (intro divide_right_mono) simp_all
      finally show ?thesis .
    qed
    have hi: "of_int a / d \<le> 1"
      using a53 d(2) d0 by (simp add: pos_divide_le_eq)
    from round_f64_below_one [OF lo hi]
    obtain r where r: "round_f64 (of_int a / d) = Finite r" "\<lceil>r\<rceil> = 1" by blast
    have "\<lceil>(of_int a / of_int b :: rat)\<rceil> = 1"
    proof (rule ceiling_unique)
      have "(0::rat) < of_int b" using b(1) by simp
      with ra show "of_int 1 - 1 < (of_int a / of_int b :: rat)" by simp
      have "a \<le> b" using a(2) big by simp
      then have "(of_int a :: rat) \<le> of_int b" by (simp only: of_int_le_iff)
      with b(1) show "(of_int a / of_int b :: rat) \<le> of_int 1"
        by (simp add: pos_divide_le_eq)
    qed
    with r d0 show ?thesis by (simp add: fa d(1))
  qed
qed

subsection \<open>Compute with a positive page size\<close>

lemma fill_prefix:
  "k \<le> length s \<Longrightarrow>
   fold (\<lambda>i xs. xs[i := int i]) [0..<k] s = map int [0..<k] @ drop k s"
proof (induction k)
  case 0
  then show ?case by simp
next
  case (Suc k)
  then have k: "k < length s" by simp
  then have "drop k s = s ! k # drop (Suc k) s" by (simp add: Cons_nth_drop_Suc)
  with Suc show ?case
    by (simp add: list_update_append)
qed

lemma fill_all:
  "fold (\<lambda>i xs. xs[i := int i]) [0..<length s] s = map int [0..<length s]"
  using fill_prefix [of "length s" s] by simp

lemma int_of_Ceil:
  assumes "is_int \<lceil>r\<rceil>"
  shows "int_of_float64 pf (Ceil (Finite r)) = \<lceil>r\<rceil>"
  using assms by (simp add: int_of_float64_def Let_def)

lemma ceiling_quotient_bounds:
  assumes "0 \<le> a" and "0 < b"
  shows "0 \<le> \<lceil>(of_int a / of_int b :: rat)\<rceil> \<and> \<lceil>(of_int a / of_int b :: rat)\<rceil> \<le> a"
proof
  have "(0::rat) \<le> of_int a / of_int b" using assms by simp
  then show "0 \<le> \<lceil>(of_int a / of_int b :: rat)\<rceil>" by (simp add: less_ceiling_iff)
  have "(1::rat) \<le> of_int b" using assms(2) by simp
  then have "(of_int a :: rat) * 1 \<le> of_int a * of_int b"
    using assms(1) by (intro mult_left_mono) simp_all
  then have "(of_int a / of_int b :: rat) \<le> of_int a"
    using assms(2) by (simp add: pos_divide_le_eq)
  then show "\<lceil>(of_int a / of_int b :: rat)\<rceil> \<le> a" by (simp only: ceiling_le_iff)
qed

lemma page_number:
  assumes "0 \<le> a" and "a < 2 ^ 53" and "0 < b" and "b < 2 ^ 63"
  shows "int_of_float64 pf (Ceil (f64_div (float64_of_int a) (float64_of_int b))) =
           \<lceil>(of_int a / of_int b :: rat)\<rceil>"
proof -
  from quotient_ceiling [OF assms]
  obtain r where r: "f64_div (float64_of_int a) (float64_of_int b) = Finite r"
      "\<lceil>r\<rceil> = \<lceil>(of_int a / of_int b :: rat)\<rceil>" by blast
  define c where "c = \<lceil>(of_int a / of_int b :: rat)\<rceil>"
  have "0 \<le> c \<and> c \<le> a"
    unfolding c_def using assms(1,3) by (rule ceiling_quotient_bounds)
  with assms(2) have "is_int c"
    by (simp add: is_int_def)
  then have "is_int \<lceil>r\<rceil>"
    by (simp only: r(2) c_def)
  then show ?thesis by (simp only: r int_of_Ceil)
qed

lemma Compute_value:
  assumes "0 \<le> Total p" and "Total p < 2 ^ 53" and "0 \<le> StartAt p" and "StartAt p < 2 ^ 53"
    and "0 < MaxResults p" and "MaxResults p < 2 ^ 63"
    and "\<lceil>(of_int (Total p) / of_int (MaxResults p) :: rat)\<rceil> \<le> max_len pf"
  shows "Compute pf p =
           Inr (p\<lparr>PageCount := \<lceil>(of_int (Total p) / of_int (MaxResults p) :: rat)\<rceil>,
                  Page := \<lceil>(of_int (StartAt p) / of_int (MaxResults p) :: rat)\<rceil>,
                  Pages := map int
                    [0..<nat \<lceil>(of_int (Total p) / of_int (MaxResults p) :: rat)\<rceil>]\<rparr>)"
proof -
  define c where "c = \<lceil>(of_int (Total p) / of_int (MaxResults p) :: rat)\<rceil>"
  have pc: "int_of_float64 pf
      (Ceil (f64_div (float64_of_int (Total p)) (float64_of_int (MaxResults p)))) = c"
    unfolding c_def using assms(1,2,5,6) by (rule page_number)
  have pg: "int_of_float64 pf
      (Ceil (f64_div (float64_of_int (StartAt p)) (float64_of_int (MaxResults p)))) =
      \<lceil>(of_int (StartAt p) / of_int (MaxResults p) :: rat)\<rceil>"
    using assms(3,4,5,6) by (rule page_number)
  have c0: "0 \<le> c"
    using ceiling_quotient_bounds [OF assms(1,5)] by (simp add: c_def)
  have mk: "make_ints pf c = Inr (replicate (nat c) 0)"
    using c0 assms(7) by (simp add: make_ints_def c_def)
  have "fold (\<lambda>i xs. xs[i := int i]) [0..<length (replicate (nat c) (0::int))]
          (replicate (nat c) 0) = map int [0..<nat c]"
    using fill_all [of "replicate (nat c) 0"] by simp
  then show ?thesis
    unfolding c_def [symmetric] by (simp add: Compute_def pc pg mk)
qed

lemma round_f64_eval:
  assumes "0 < x" and "2 powi e \<le> x" and "x < 2 powi (e + 1)" and "- 1022 \<le> e"
    and "of_int (round_even (x / 2 powi (e - 52))) * 2 powi (e - 52) = r" and "r < huge"
  shows "round_f64 x = Finite r"
proof -
  have e: "ilog2 x = e" using assms(1,2,3) by (rule ilog2_unique)
  with assms(1,4) have "ulp x = 2 powi (e - 52)" by (simp add: ulp_normal)
  with assms(5) have "nearest x = r" by (simp add: nearest_def)
  with assms(1,6) show ?thesis by (simp add: round_f64_finite)
qed

lemma round_even_numeral [simp]: "round_even (numeral k) = numeral k"
  using round_even_of_int [of "numeral k"] by simp

lemma float64_of_int_0: "float64_of_int 0 = Finite 0"
  by (simp add: float64_of_int_def round_f64_def)

lemma Compute_example:
  "Compute amd64 (zero_Pagination\<lparr>Total := 95, StartAt := 20, MaxResults := 25\<rparr>) =
     Inr (zero_Pagination\<lparr>Total := 95, StartAt := 20, MaxResults := 25,
            PageCount := 4, Page := 1, Pages := [0, 1, 2, 3]\<rparr>)"
proof -
  let ?p = "zero_Pagination\<lparr>Total := 95, StartAt := 20, MaxResults := 25\<rparr>"
  have "\<lceil>(19 / 5 :: rat)\<rceil> = 4" and "\<lceil>(4 / 5 :: rat)\<rceil> = 1"
    by (rule ceiling_unique; simp)+
  then have c: "\<lceil>(of_int (Total ?p) / of_int (MaxResults ?p) :: rat)\<rceil> = 4"
    and d: "\<lceil>(of_int (StartAt ?p) / of_int (MaxResults ?p) :: rat)\<rceil> = 1"
    by (simp_all add: zero_Pagination_def)
  have l: "map int [0..<nat 4] = [0, 1, 2, 3]"
    by (simp add: upt_rec)
  have "Compute amd64 ?p = Inr (?p\<lparr>PageCount := 4, Page := 1, Pages := [0, 1, 2, 3]\<rparr>)"
    using Compute_value [of ?p amd64] unfolding c d l
    by (simp add: zero_Pagination_def amd64_def)
  then show ?thesis by simp
qed

text \<open>
  C1. For a total and a start offset from 0 up to 2^53 (exclusive), a page size above 0 (and
  in the range of \<open>int\<close>) and a page count that \<open>make\<close> accepts as a length, \<open>Compute\<close>
  sets \<open>PageCount\<close> to the ceiling of total / page size, \<open>Page\<close> to the ceiling of start
  offset / page size, and \<open>Pages\<close> to the list 0, 1, ..., \<open>PageCount\<close> - 1. For 95, 20 and
  25 this gives 4, 1 and the pages 0, 1, 2, 3.
\<close>

theorem Compute_pages:
  assumes "0 \<le> Total p" and "Total p < 2 ^ 53" and "0 \<le> StartAt p" and "StartAt p < 2 ^ 53"
    and "0 < MaxResults p" and "MaxResults p < 2 ^ 63"
    and "\<lceil>(of_int (Total p) / of_int (MaxResults p) :: rat)\<rceil> \<le> max_len pf"
  shows "Compute pf p =
           Inr (p\<lparr>PageCount := \<lceil>(of_int (Total p) / of_int (MaxResults p) :: rat)\<rceil>,
                  Page := \<lceil>(of_int (StartAt p) / of_int (MaxResults p) :: rat)\<rceil>,
                  Pages := map int
                    [0..<nat \<lceil>(of_int (Total p) / of_int (MaxResults p) :: rat)\<rceil>]\<rparr>)"
  using assms by (rule Compute_value)

theorem Compute_pages_witness:
  "Compute amd64 (zero_Pagination\<lparr>Total := 95, StartAt := 20, MaxResults := 25\<rparr>) =
     Inr (zero_Pagination\<lparr>Total := 95, StartAt := 20, MaxResults := 25,
            PageCount := 4, Page := 1, Pages := [0, 1, 2, 3]\<rparr>)"
proof -
  let ?p = "zero_Pagination\<lparr>Total := 95, StartAt := 20, MaxResults := 25\<rparr>"
  have "\<lceil>(19 / 5 :: rat)\<rceil> = 4" and "\<lceil>(4 / 5 :: rat)\<rceil> = 1"
    by (rule ceiling_unique; simp)+
  then have c: "\<lceil>(of_int (Total ?p) / of_int (MaxResults ?p) :: rat)\<rceil> = 4"
    and d: "\<lceil>(of_int (StartAt ?p) / of_int (MaxResults ?p) :: rat)\<rceil> = 1"
    by (simp_all add: zero_Pagination_def)
  have l: "map int [0..<nat 4] = [0, 1, 2, 3]"
    by (simp add: upt_rec)
  have "Compute amd64 ?p = Inr (?p\<lparr>PageCount := 4, Page := 1, Pages := [0, 1, 2, 3]\<rparr>)"
    using Compute_pages [of ?p amd64] unfolding c d l
    by (simp add: zero_Pagination_def amd64_def)
  then show ?thesis by simp
qed

lemma float64_of_int_2_53_1: "float64_of_int 9007199254740993 = Finite 9007199254740992"
proof -
  have "round_f64 9007199254740993 = Finite 9007199254740992"
  proof (rule round_f64_eval [where e = 53])
    show "(9007199254740992::rat) < huge"
      using pow_less_huge [of 53] by simp
    have "\<lfloor>(9007199254740993 / 2 :: rat)\<rfloor> = 4503599627370496"
      by (rule floor_unique) simp_all
    then show "of_int (round_even (9007199254740993 / 2 powi (53 - 52))) * 2 powi (53 - 52) =
        (9007199254740992::rat)"
      by (simp add: round_even_def Let_def)
  qed simp_all
  then show ?thesis by (simp add: float64_of_int_def)
qed

lemma float64_of_int_2_53: "float64_of_int 9007199254740992 = Finite 9007199254740992"
proof -
  have "round_f64 9007199254740992 = Finite 9007199254740992"
  proof (rule round_f64_eval [where e = 53])
    show "(9007199254740992::rat) < huge"
      using pow_less_huge [of 53] by simp
  qed simp_all
  then show ?thesis by (simp add: float64_of_int_def)
qed

lemma round_f64_1: "round_f64 1 = Finite 1"
  using float64_of_int_exact [of 1] by (simp add: float64_of_int_def)

lemma round_f64_0: "round_f64 0 = Finite 0"
  by (simp add: round_f64_def)

text \<open>
  C1 fails above 2^53, where the conversion to float64 rounds: for a total of 2^53 + 1 and a page size of
  2^53, \<open>Compute\<close> gives one page, where the ceiling of the quotient is 2.
\<close>

theorem Compute_pages_counterexample:
  "Compute amd64
     (zero_Pagination\<lparr>Total := 9007199254740993, MaxResults := 9007199254740992\<rparr>) =
     Inr (zero_Pagination\<lparr>Total := 9007199254740993, MaxResults := 9007199254740992,
            PageCount := 1, Pages := [0]\<rparr>) \<and>
   \<lceil>(of_int 9007199254740993 / of_int 9007199254740992 :: rat)\<rceil> = 2"
proof
  show "Compute amd64
     (zero_Pagination\<lparr>Total := 9007199254740993, MaxResults := 9007199254740992\<rparr>) =
     Inr (zero_Pagination\<lparr>Total := 9007199254740993, MaxResults := 9007199254740992,
            PageCount := 1, Pages := [0]\<rparr>)"
    by (simp add: Compute_def zero_Pagination_def float64_of_int_2_53_1 float64_of_int_2_53
        float64_of_int_0 round_f64_1 round_f64_0 int_of_float64_def is_int_def make_ints_def
        amd64_def)
  show "\<lceil>(of_int 9007199254740993 / of_int 9007199254740992 :: rat)\<rceil> = 2"
    by (rule ceiling_unique) simp_all
qed

subsection \<open>Compute with the page size 0\<close>

lemma round_even_minus: "round_even (- t) = - round_even t"
proof (cases "t = of_int \<lfloor>t\<rfloor>")
  case True
  then have "- t = of_int (- \<lfloor>t\<rfloor>)" by simp
  then have "round_even (- t) = - \<lfloor>t\<rfloor>" by (simp only: round_even_of_int)
  moreover from True have "round_even t = \<lfloor>t\<rfloor>" by (metis round_even_of_int)
  ultimately show ?thesis by simp
next
  case False
  then have "\<lceil>t\<rceil> = \<lfloor>t\<rfloor> + 1" by (simp add: ceiling_altdef)
  then have fl: "\<lfloor>- t\<rfloor> = - \<lfloor>t\<rfloor> - 1" by (simp add: ceiling_def)
  show ?thesis
    unfolding round_even_def Let_def fl by (auto simp: algebra_simps)
qed

lemma nearest_minus: "nearest (- x) = - nearest x"
  by (simp add: nearest_def ulp_def round_even_minus)

lemma round_f64_minus:
  assumes "round_f64 x = Finite r" and "0 < x"
  shows "round_f64 (- x) = Finite (- r)"
  using assms by (auto simp: round_f64_def nearest_minus split: if_splits)

lemma float64_of_int_2_63: "float64_of_int (2 ^ 63) = Finite (2 ^ 63)"
proof -
  have "round_f64 (2 ^ 63) = Finite (2 ^ 63)"
  proof (rule round_f64_eval [where e = 63])
    show "(2::rat) ^ 63 < huge" by (rule pow_less_huge) simp
  qed simp_all
  then show ?thesis by (simp add: float64_of_int_def)
qed

lemma float64_of_int_positive:
  assumes "0 < n" and "n \<le> 2 ^ 63"
  shows "\<exists>r. float64_of_int n = Finite r \<and> 0 < r"
proof (cases "n = 2 ^ 63")
  case True
  then show ?thesis using float64_of_int_2_63 by simp
next
  case False
  with assms(2) have "n < 2 ^ 63" by simp
  with assms(1) show ?thesis by (rule float64_of_int_pos)
qed

lemma float64_of_int_negative:
  assumes "n < 0" and "- (2 ^ 63) \<le> n"
  shows "\<exists>r. float64_of_int n = Finite r \<and> r < 0"
proof -
  from assms have "0 < - n" and "- n \<le> 2 ^ 63" by simp_all
  from float64_of_int_positive [OF this]
  obtain r where r: "round_f64 (of_int (- n)) = Finite r" "0 < r"
    by (auto simp: float64_of_int_def)
  have "(0::rat) < of_int (- n)" using assms(1) by simp
  from round_f64_minus [OF r(1) this] have "round_f64 (of_int n) = Finite (- r)" by simp
  with r(2) show ?thesis by (simp add: float64_of_int_def)
qed

lemma div_by_zero:
  assumes "is_int n"
  shows "f64_div (float64_of_int n) (float64_of_int 0) = quotient_by_zero n"
proof -
  consider "n = 0" | "0 < n" | "n < 0" by linarith
  then show ?thesis
  proof cases
    case 1
    then show ?thesis by (simp add: float64_of_int_0 quotient_by_zero_def)
  next
    case 2
    from assms have "n \<le> 2 ^ 63" by (simp add: is_int_def)
    from float64_of_int_positive [OF 2 this] 2 show ?thesis
      by (auto simp: float64_of_int_0 quotient_by_zero_def)
  next
    case 3
    from assms have "- (2 ^ 63) \<le> n" by (simp add: is_int_def)
    from float64_of_int_negative [OF 3 this] 3 show ?thesis
      by (auto simp: float64_of_int_0 quotient_by_zero_def)
  qed
qed

lemma int_of_quotient_by_zero:
  "int_of_float64 pf (Ceil (quotient_by_zero n)) = convert_other pf (quotient_by_zero n)"
  by (simp add: quotient_by_zero_def int_of_float64_def)

text \<open>
  C7. When \<open>MaxResults\<close> is 0, \<open>Compute\<close> signals no division error: the float64
  quotients are NaN (for 0), +Inf (for a positive int) or -Inf (for a negative one), their
  conversion to int is the platform's, and \<open>Compute\<close> panics on the slice length when the
  converted page count is negative or above the greatest length, and otherwise returns with
  \<open>PageCount\<close> and \<open>Page\<close> set to the converted values and \<open>Pages\<close> to 0, 1, ...,
  \<open>PageCount\<close> - 1.
\<close>

theorem Compute_zero_MaxResults:
  assumes "MaxResults p = 0" and "is_int (Total p)" and "is_int (StartAt p)"
  shows "Compute pf p =
           (let pc = convert_other pf (quotient_by_zero (Total p));
                pg = convert_other pf (quotient_by_zero (StartAt p))
            in if pc < 0 \<or> max_len pf < pc then Inl MakesliceLenOutOfRange
               else Inr (p\<lparr>PageCount := pc, Page := pg, Pages := map int [0..<nat pc]\<rparr>)) \<and>
         Compute pf p \<noteq> Inl IntegerDivideByZero"
proof -
  define pc where "pc = convert_other pf (quotient_by_zero (Total p))"
  define pg where "pg = convert_other pf (quotient_by_zero (StartAt p))"
  have q1: "int_of_float64 pf
      (Ceil (f64_div (float64_of_int (Total p)) (float64_of_int (MaxResults p)))) = pc"
    using assms(1,2) by (simp add: div_by_zero int_of_quotient_by_zero pc_def)
  have q2: "int_of_float64 pf
      (Ceil (f64_div (float64_of_int (StartAt p)) (float64_of_int (MaxResults p)))) = pg"
    using assms(1,3) by (simp add: div_by_zero int_of_quotient_by_zero pg_def)
  have "fold (\<lambda>i xs. xs[i := int i]) [0..<length (replicate (nat pc) (0::int))]
          (replicate (nat pc) 0) = map int [0..<nat pc]"
    using fill_all [of "replicate (nat pc) 0"] by simp
  then have run: "Compute pf p =
      (if pc < 0 \<or> max_len pf < pc then Inl MakesliceLenOutOfRange
       else Inr (p\<lparr>PageCount := pc, Page := pg, Pages := map int [0..<nat pc]\<rparr>))"
    by (simp add: Compute_def q1 q2 make_ints_def)
  then show ?thesis
    unfolding pc_def [symmetric] pg_def [symmetric] by (simp add: Let_def)
qed

theorem Compute_zero_MaxResults_witness:
  "Compute amd64 (zero_Pagination\<lparr>Total := 95, StartAt := 20\<rparr>) =
     Inl MakesliceLenOutOfRange"
proof -
  let ?p = "zero_Pagination\<lparr>Total := 95, StartAt := 20\<rparr>"
  have "MaxResults ?p = 0" and "is_int (Total ?p)" and "is_int (StartAt ?p)"
    by (simp_all add: zero_Pagination_def is_int_def)
  from Compute_zero_MaxResults [OF this, of amd64] show ?thesis
    by (simp add: amd64_def)
qed

text \<open>
  C7 fails: with everything 0, \<open>Compute\<close> panics on the slice length on amd64, and on arm64 it
  returns page count 0, page 0 and no pages.
\<close>

theorem Compute_division_error_counterexample:
  "Compute amd64 zero_Pagination = Inl MakesliceLenOutOfRange \<and>
   Compute arm64 zero_Pagination = Inr zero_Pagination"
  by (simp add: Compute_def zero_Pagination_def float64_of_int_0 int_of_float64_def
      make_ints_def amd64_def arm64_def)

section \<open>Properties of AddVersion\<close>

lemma name_found_present:
  "None \<notin> set vs \<Longrightarrow>
   name_found vs (Some ver) = Inr (Version_Name ver \<in> set (names vs))"
  by (induction vs rule: names.induct) auto

lemma names_append: "names (xs @ ys) = names xs @ names ys"
  by (induction xs rule: names.induct) simp_all

lemma AddVersion_present:
  assumes "None \<notin> set (entries f)" and "Version_Name ver \<in> set (names (entries f))"
  shows "AddVersion f (Some ver) = Inr f"
proof -
  from assms(2) have "Versions f \<noteq> None"
    by (cases "Versions f") (simp_all add: entries_def)
  then obtain vs where vs: "Versions f = Some vs" by auto
  with assms have "name_found vs (Some ver) = Inr True"
    by (simp add: name_found_present entries_def)
  with vs show ?thesis by (simp add: AddVersion_def)
qed

lemma AddVersion_absent:
  assumes "None \<notin> set (entries f)" and "Version_Name ver \<notin> set (names (entries f))"
  shows "AddVersion f (Some ver) = Inr (f\<lparr>Versions := Some (entries f @ [Some ver])\<rparr>)"
proof (cases "Versions f")
  case None
  then show ?thesis by (simp add: AddVersion_def entries_def)
next
  case (Some vs)
  with assms have "name_found vs (Some ver) = Inr False"
    by (simp add: name_found_present entries_def)
  with Some show ?thesis by (simp add: AddVersion_def entries_def)
qed

lemma entries_update [simp]: "entries (f\<lparr>Versions := Some vs\<rparr>) = vs"
  by (simp add: entries_def)

lemma AddVersion_step:
  assumes "None \<notin> set (entries f)" and "distinct (names (entries f))"
  shows "\<exists>f'. AddVersion f (Some ver) = Inr f' \<and> None \<notin> set (entries f') \<and>
           distinct (names (entries f')) \<and> (\<exists>added. entries f' = entries f @ added) \<and>
           Versions f' \<noteq> None"
proof (cases "Version_Name ver \<in> set (names (entries f))")
  case True
  then have "Versions f \<noteq> None"
    by (cases "Versions f") (simp_all add: entries_def)
  with True assms show ?thesis
    by (simp add: AddVersion_present)
next
  case False
  with assms show ?thesis
    by (simp add: AddVersion_absent names_append)
qed

lemma AddVersions_step:
  "None \<notin> set (entries f) \<Longrightarrow> distinct (names (entries f)) \<Longrightarrow> None \<notin> set vers \<Longrightarrow>
   \<exists>f'. AddVersions f vers = Inr f' \<and> None \<notin> set (entries f') \<and>
     distinct (names (entries f')) \<and> (\<exists>added. entries f' = entries f @ added) \<and>
     (Versions f \<noteq> None \<or> vers \<noteq> [] \<longrightarrow> Versions f' \<noteq> None)"
proof (induction vers arbitrary: f)
  case Nil
  then show ?case by simp
next
  case (Cons version rest)
  from Cons.prems(3) obtain ver where ver: "version = Some ver" and rest: "None \<notin> set rest"
    by (cases version) auto
  from AddVersion_step [OF Cons.prems(1,2), of ver]
  obtain f1 added1 where f1: "AddVersion f (Some ver) = Inr f1" "None \<notin> set (entries f1)"
      "distinct (names (entries f1))" "entries f1 = entries f @ added1" "Versions f1 \<noteq> None"
    by blast
  from Cons.IH [OF f1(2,3) rest]
  obtain f' added where f': "AddVersions f1 rest = Inr f'" "None \<notin> set (entries f')"
      "distinct (names (entries f'))" "entries f' = entries f1 @ added" "Versions f' \<noteq> None"
    using f1(5) by blast
  have "AddVersions f (version # rest) = Inr f'"
    using ver f1(1) f'(1) by simp
  moreover have "entries f' = entries f @ (added1 @ added)"
    using f1(4) f'(4) by simp
  ultimately show ?case
    using f'(2,3,5) by blast
qed

lemma NewIssue_Fields:
  "\<exists>f0. Fields (NewIssue project issue_type) = Some f0 \<and> Versions f0 = Some []"
  by (simp add: NewIssue_def)

text \<open>
  C3. \<open>AddVersion\<close> is idempotent with respect to the version's name. On fields whose
  version entries are versions (no nil pointer among them) and for every version: when an
  entry has the same name the fields are left as they are; otherwise the version list becomes
  the former entries followed by the given version, one entry more; a nil list is made a
  list first, so that it then holds the given version alone; and a second call with the same
  version changes nothing.
\<close>

theorem AddVersion_idempotent_append:
  assumes "None \<notin> set (entries f)"
  shows "AddVersion f (Some ver) =
           Inr (if Version_Name ver \<in> set (names (entries f)) then f
                else f\<lparr>Versions := Some (entries f @ [Some ver])\<rparr>) \<and>
         (Versions f = None \<longrightarrow>
            AddVersion f (Some ver) = Inr (f\<lparr>Versions := Some [Some ver]\<rparr>)) \<and>
         (\<forall>f'. AddVersion f (Some ver) = Inr f' \<longrightarrow> AddVersion f' (Some ver) = Inr f')"
proof (intro conjI)
  show first: "AddVersion f (Some ver) =
           Inr (if Version_Name ver \<in> set (names (entries f)) then f
                else f\<lparr>Versions := Some (entries f @ [Some ver])\<rparr>)"
    using assms by (simp add: AddVersion_present AddVersion_absent)
  show "Versions f = None \<longrightarrow>
          AddVersion f (Some ver) = Inr (f\<lparr>Versions := Some [Some ver]\<rparr>)"
    by (simp add: AddVersion_def)
  show "\<forall>f'. AddVersion f (Some ver) = Inr f' \<longrightarrow> AddVersion f' (Some ver) = Inr f'"
  proof (intro allI impI)
    fix f'
    assume run: "AddVersion f (Some ver) = Inr f'"
    show "AddVersion f' (Some ver) = Inr f'"
    proof (cases "Version_Name ver \<in> set (names (entries f))")
      case True
      with first run have "f' = f" by simp
      with True assms show ?thesis by (simp add: AddVersion_present)
    next
      case False
      with first run have f': "f' = f\<lparr>Versions := Some (entries f @ [Some ver])\<rparr>" by simp
      have "None \<notin> set (entries f')" and "Version_Name ver \<in> set (names (entries f'))"
        using assms by (simp_all add: f' names_append)
      then show ?thesis by (rule AddVersion_present)
    qed
  qed
qed

theorem AddVersion_idempotent_append_witness:
  "None \<notin> set (entries (zero_IssueFields :: unit IssueFields)) \<and>
   AddVersion (zero_IssueFields :: unit IssueFields)
       (Some (zero_Version\<lparr>Version_Name := ''1.0''\<rparr>)) =
     Inr (zero_IssueFields\<lparr>Versions := Some [Some (zero_Version\<lparr>Version_Name := ''1.0''\<rparr>)]\<rparr>) \<and>
   AddVersion
       (zero_IssueFields\<lparr>Versions := Some [Some (zero_Version\<lparr>Version_Name := ''1.0''\<rparr>)]\<rparr>
          :: unit IssueFields)
       (Some (zero_Version\<lparr>Version_Name := ''1.0'', Version_Id := ''7''\<rparr>)) =
     Inr (zero_IssueFields\<lparr>Versions := Some [Some (zero_Version\<lparr>Version_Name := ''1.0''\<rparr>)]\<rparr>)"
proof -
  let ?v = "zero_Version\<lparr>Version_Name := ''1.0''\<rparr>"
  let ?w = "zero_Version\<lparr>Version_Name := ''1.0'', Version_Id := ''7''\<rparr>"
  let ?f = "zero_IssueFields :: unit IssueFields"
  let ?g = "?f\<lparr>Versions := Some [Some ?v]\<rparr>"
  have h0: "None \<notin> set (entries ?f)"
    by (simp add: entries_def zero_IssueFields_def)
  have h1: "None \<notin> set (entries ?g)"
    by simp
  have "AddVersion ?f (Some ?v) = Inr ?g"
    using AddVersion_idempotent_append [OF h0, of ?v]
    by (simp add: entries_def zero_IssueFields_def)
  moreover have "AddVersion ?g (Some ?w) = Inr ?g"
    using AddVersion_idempotent_append [OF h1, of ?w]
    by (simp add: zero_Version_def)
  ultimately show ?thesis
    using h0 by simp
qed

text \<open>
  C10. Pairwise distinct version names are an invariant of \<open>AddVersion\<close>. From fields
  whose version entries are versions with pairwise distinct names, a sequence of
  \<open>AddVersion\<close> calls with versions runs without a panic and leaves fields whose entries
  again have pairwise distinct names, that start with the former entries in their former
  order, and whose list is not nil once a call was made or when it was not nil before. The
  fields of \<open>NewIssue\<close> have the empty list, not nil, so every sequence of calls from them
  ends with a list that is not nil and has pairwise distinct names.
\<close>

theorem AddVersions_distinct_names:
  "(None \<notin> set (entries f) \<and> distinct (names (entries f)) \<and> None \<notin> set vers \<longrightarrow>
     (\<exists>f'. AddVersions f vers = Inr f' \<and> None \<notin> set (entries f') \<and>
        distinct (names (entries f')) \<and> (\<exists>added. entries f' = entries f @ added) \<and>
        (Versions f \<noteq> None \<or> vers \<noteq> [] \<longrightarrow> Versions f' \<noteq> None))) \<and>
   (None \<notin> set vers \<longrightarrow>
     (\<exists>f0 f'. Fields (NewIssue project issue_type :: 'u Issue) = Some f0 \<and>
        Versions f0 = Some [] \<and> AddVersions f0 vers = Inr f' \<and>
        Versions f' \<noteq> None \<and> distinct (names (entries f'))))"
proof (intro conjI impI)
  assume "None \<notin> set (entries f) \<and> distinct (names (entries f)) \<and> None \<notin> set vers"
  then show "\<exists>f'. AddVersions f vers = Inr f' \<and> None \<notin> set (entries f') \<and>
        distinct (names (entries f')) \<and> (\<exists>added. entries f' = entries f @ added) \<and>
        (Versions f \<noteq> None \<or> vers \<noteq> [] \<longrightarrow> Versions f' \<noteq> None)"
    by (intro AddVersions_step) simp_all
next
  assume vers: "None \<notin> set vers"
  obtain f0 :: "'u IssueFields"
    where f0: "Fields (NewIssue project issue_type) = Some f0" "Versions f0 = Some []"
    using NewIssue_Fields by blast
  have "None \<notin> set (entries f0)" and "distinct (names (entries f0))"
    using f0(2) by (simp_all add: entries_def)
  from AddVersions_step [OF this vers]
  obtain f' where "AddVersions f0 vers = Inr f'" "distinct (names (entries f'))"
      "Versions f' \<noteq> None"
    using f0(2) by auto
  with f0 show "\<exists>f0 f'. Fields (NewIssue project issue_type :: 'u Issue) = Some f0 \<and>
        Versions f0 = Some [] \<and> AddVersions f0 vers = Inr f' \<and>
        Versions f' \<noteq> None \<and> distinct (names (entries f'))"
    by blast
qed

theorem AddVersions_distinct_names_witness:
  "AddVersions (zero_IssueFields\<lparr>Versions := Some []\<rparr> :: unit IssueFields)
     [Some (zero_Version\<lparr>Version_Name := ''1.0''\<rparr>),
      Some (zero_Version\<lparr>Version_Name := ''2.0''\<rparr>),
      Some (zero_Version\<lparr>Version_Name := ''1.0''\<rparr>)] =
   Inr (zero_IssueFields\<lparr>Versions :=
     Some [Some (zero_Version\<lparr>Version_Name := ''1.0''\<rparr>),
           Some (zero_Version\<lparr>Version_Name := ''2.0''\<rparr>)]\<rparr>) \<and>
   distinct (names [Some (zero_Version\<lparr>Version_Name := ''1.0''\<rparr>),
                    Some (zero_Version\<lparr>Version_Name := ''2.0''\<rparr>)])"
proof -
  let ?f = "zero_IssueFields\<lparr>Versions := Some []\<rparr> :: unit IssueFields"
  let ?vers = "[Some (zero_Version\<lparr>Version_Name := ''1.0''\<rparr>),
      Some (zero_Version\<lparr>Version_Name := ''2.0''\<rparr>),
      Some (zero_Version\<lparr>Version_Name := ''1.0''\<rparr>)]"
  have run: "AddVersions ?f ?vers =
      Inr (zero_IssueFields\<lparr>Versions :=
        Some [Some (zero_Version\<lparr>Version_Name := ''1.0''\<rparr>),
              Some (zero_Version\<lparr>Version_Name := ''2.0''\<rparr>)]\<rparr>)"
    by (simp add: AddVersion_def zero_IssueFields_def zero_Version_def)
  have "None \<notin> set (entries ?f) \<and> distinct (names (entries ?f)) \<and> None \<notin> set ?vers"
    by simp
  with AddVersions_distinct_names [of ?f ?vers]
  obtain f' where "AddVersions ?f ?vers = Inr f'" "distinct (names (entries f'))"
    by blast
  with run show ?thesis
    by simp
qed

section \<open>Properties of the operations\<close>

lemma buildAndExecRequest_sent:
  "buildAndExecRequest env j method url body = (sent, r) \<Longrightarrow> req \<in> set sent \<Longrightarrow>
   Method req = method \<and> Url req = url \<and> RequestBody req = body"
  by (auto simp: buildAndExecRequest_def Let_def split: if_splits option.splits sum.splits)

lemma keys_string_field: "kv \<in> set (string_field k s) \<Longrightarrow> fst kv = k"
  by (auto simp: string_field_def split: if_splits)

lemma keys_float32_field: "float32_field k x = Inr l \<Longrightarrow> kv \<in> set l \<Longrightarrow> fst kv = k"
  by (auto simp: float32_field_def split: float32.splits if_splits)

lemma keys_pointer_field: "pointer_field k enc p = Inr l \<Longrightarrow> kv \<in> set l \<Longrightarrow> fst kv = k \<and> p \<noteq> None"
  by (auto simp: pointer_field_def split: option.splits sum.splits)

lemma keys_versions_field: "kv \<in> set (versions_field vs) \<Longrightarrow> fst kv = ''versions''"
  by (auto simp: versions_field_def split: option.splits if_splits)

lemma members_origin:
  "members fs = Inr kvs \<Longrightarrow> kv \<in> set kvs \<Longrightarrow> \<exists>l. Inr l \<in> set fs \<and> kv \<in> set l"
proof (induction fs arbitrary: kvs rule: members.induct)
  case 1
  then show ?case by simp
next
  case (2 e rest)
  then show ?case by simp
next
  case (3 l rest)
  from "3.prems"(1) obtain others where others: "members rest = Inr others" "kvs = l @ others"
    by (auto split: sum.splits)
  show ?case
  proof (cases "kv \<in> set l")
    case True
    then show ?thesis by auto
  next
    case False
    with "3.prems"(2) others(2) have "kv \<in> set others" by simp
    from "3.IH" [OF others(1) this] show ?thesis by auto
  qed
qed

lemma IssueFields_json_keys:
  assumes "IssueFields_json user f = Inr doc" and "k \<in> object_keys doc"
  shows "(k = ''reporter'' \<longrightarrow> Reporter f \<noteq> None) \<and> (k = ''assignee'' \<longrightarrow> Assignee f \<noteq> None) \<and>
         (k = ''created'' \<longrightarrow> Created f \<noteq> [])"
proof -
  from assms(1) obtain kvs where kvs: "members
       [pointer_field ''issuetype'' (\<lambda>t. Inr (IssueType_json t)) (IssueFields_IssueType f),
        Inr (string_field ''summary'' (Summary f)),
        Inr (string_field ''description'' (IssueFields_Description f)),
        pointer_field ''reporter'' user (Reporter f),
        pointer_field ''assignee'' user (Assignee f),
        pointer_field ''project'' (\<lambda>p. Inr (JiraProject_json p)) (IssueFields_Project f),
        Inr (string_field ''created'' (Created f)),
        Inr (versions_field (Versions f)),
        float32_field ''customfield_10021'' (CrashReportId f),
        Inr (string_field ''customfield_10022'' (BacktraceHash f)),
        float32_field ''customfield_10023'' (CrashCount f)] = Inr kvs" and doc: "doc = JObject kvs"
    by (auto simp: IssueFields_json_def object_def split: sum.splits)
  from assms(2) doc obtain kv where kv: "kv \<in> set kvs" "fst kv = k" by auto
  from members_origin [OF kvs kv(1)] obtain l where l: "kv \<in> set l"
    "Inr l = pointer_field ''issuetype'' (\<lambda>t. Inr (IssueType_json t)) (IssueFields_IssueType f) \<or>
     l = string_field ''summary'' (Summary f) \<or>
     l = string_field ''description'' (IssueFields_Description f) \<or>
     Inr l = pointer_field ''reporter'' user (Reporter f) \<or>
     Inr l = pointer_field ''assignee'' user (Assignee f) \<or>
     Inr l = pointer_field ''project'' (\<lambda>p. Inr (JiraProject_json p)) (IssueFields_Project f) \<or>
     l = string_field ''created'' (Created f) \<or>
     l = versions_field (Versions f) \<or>
     Inr l = float32_field ''customfield_10021'' (CrashReportId f) \<or>
     l = string_field ''customfield_10022'' (BacktraceHash f) \<or>
     Inr l = float32_field ''customfield_10023'' (CrashCount f)"
    by auto
  from l(2) show ?thesis
  proof (elim disjE)
    assume "Inr l = pointer_field ''reporter'' user (Reporter f)"
    with keys_pointer_field [of "''reporter''" user "Reporter f" l kv] l(1) kv(2)
    show ?thesis by simp
  next
    assume "Inr l = pointer_field ''assignee'' user (Assignee f)"
    with keys_pointer_field [of "''assignee''" user "Assignee f" l kv] l(1) kv(2)
    show ?thesis by simp
  next
    assume "l = string_field ''created'' (Created f)"
    with l(1) kv(2) show ?thesis by (auto simp: string_field_def split: if_splits)
  next
    assume "Inr l = pointer_field ''issuetype'' (\<lambda>t. Inr (IssueType_json t)) (IssueFields_IssueType f)"
    with keys_pointer_field [of "''issuetype''" _ "IssueFields_IssueType f" l kv] l(1) kv(2)
    show ?thesis by auto
  next
    assume "Inr l = pointer_field ''project'' (\<lambda>p. Inr (JiraProject_json p)) (IssueFields_Project f)"
    with keys_pointer_field [of "''project''" _ "IssueFields_Project f" l kv] l(1) kv(2)
    show ?thesis by auto
  next
    assume "l = string_field ''summary'' (Summary f)"
    with keys_string_field [of kv] l(1) kv(2) show ?thesis by auto
  next
    assume "l = string_field ''description'' (IssueFields_Description f)"
    with keys_string_field [of kv] l(1) kv(2) show ?thesis by auto
  next
    assume "l = versions_field (Versions f)"
    with keys_versions_field [of kv] l(1) kv(2) show ?thesis by auto
  next
    assume "Inr l = float32_field ''customfield_10021'' (CrashReportId f)"
    with keys_float32_field [of "''customfield_10021''" "CrashReportId f" l kv] l(1) kv(2)
    show ?thesis by auto
  next
    assume "l = string_field ''customfield_10022'' (BacktraceHash f)"
    with keys_string_field [of kv] l(1) kv(2) show ?thesis by auto
  next
    assume "Inr l = float32_field ''customfield_10023'' (CrashCount f)"
    with keys_float32_field [of "''customfield_10023''" "CrashCount f" l kv] l(1) kv(2)
    show ?thesis by auto
  qed
qed

lemma Issue_json_fields:
  assumes "Issue_json user i = Inr doc" and "Fields i = Some f"
  shows "\<exists>fs. IssueFields_json user f = Inr fs \<and> object_member doc ''fields'' = Some fs"
  using assms
  by (auto simp: Issue_json_def object_def pointer_field_def string_field_def
      split: sum.splits if_splits)


lemma Issue_json_keys:
  assumes "Issue_json user i = Inr doc" and "k \<in> object_keys doc"
  shows "k \<in> {''id'', ''key'', ''self'', ''expand'', ''fields''}"
proof -
  from assms(1) obtain kvs where kvs: "members
       [Inr (string_field ''id'' (Issue_Id i)),
        Inr (string_field ''key'' (Issue_Key i)),
        Inr (string_field ''self'' (Issue_Self i)),
        Inr (string_field ''expand'' (Issue_Expand i)),
        pointer_field ''fields'' (IssueFields_json user) (Fields i)] = Inr kvs"
      and doc: "doc = JObject kvs"
    by (auto simp: Issue_json_def object_def split: sum.splits)
  from assms(2) doc obtain kv where kv: "kv \<in> set kvs" "fst kv = k" by auto
  from members_origin [OF kvs kv(1)] obtain l where l: "kv \<in> set l"
    "l = string_field ''id'' (Issue_Id i) \<or>
     l = string_field ''key'' (Issue_Key i) \<or>
     l = string_field ''self'' (Issue_Self i) \<or>
     l = string_field ''expand'' (Issue_Expand i) \<or>
     Inr l = pointer_field ''fields'' (IssueFields_json user) (Fields i)"
    by auto
  from l(2) show ?thesis
  proof (elim disjE)
    assume "Inr l = pointer_field ''fields'' (IssueFields_json user) (Fields i)"
    with keys_pointer_field [of "''fields''" "IssueFields_json user" "Fields i" l kv] l(1) kv(2)
    show ?thesis by simp
  qed (use keys_string_field [of kv] l(1) kv(2) in auto)
qed

lemma SaveIssue_run:
  assumes "Fields issue = Some f"
    and "Issue_json (user_json env)
           (issue\<lparr>Fields := Some (f\<lparr>Reporter := None, Assignee := None, Created := []\<rparr>)\<rparr>) = Inr doc"
    and "buildAndExecRequest env j ''PUT'' (BaseUrl j @ ApiPath j @ ''/issue/'' @ Issue_Key issue)
           (Some (render env doc)) = (sent, r)"
  shows "SaveIssue env j issue =
           (issue\<lparr>Fields := Some (f\<lparr>Reporter := None, Assignee := None, Created := []\<rparr>)\<rparr>, sent,
            case r of
              Inl e \<Rightarrow> Inl e
            | Inr contents \<Rightarrow> Inr (if contents = [] then None else Some (''error: '' @ contents)))"
  using assms by (simp add: SaveIssue_def Let_def split: sum.splits)

lemma AddVersionToIssue_run:
  assumes "buildAndExecRequest env j ''PUT'' (BaseUrl j @ ApiPath j @ ''/issue/'' @ IssueRef_Key i)
           (Some (add_version_body (Version_Id v))) = (sent, r)"
  shows "AddVersionToIssue env j (Some i) (Some v) =
           (sent,
            case r of
              Inl e \<Rightarrow> Inl e
            | Inr contents \<Rightarrow> Inr (if contents = [] then None else Some (''error: '' @ contents)))"
  using assms by (simp add: AddVersionToIssue_def Let_def split: sum.splits)

lemma transport_failure:
  assumes "client_do env req = None" and "body \<noteq> None \<longrightarrow> create_ok env ''last_body.txt''"
    and "request_ok env method url" and "Auth j = Some auth"
    and "req = \<lparr>Method = method, Url = url, RequestBody = body,
                 ContentType = (if body \<noteq> None then Some ''application/json;charset=UTF-8''
                                else None),
                 BasicAuth = (Login auth, Password auth)\<rparr>"
  shows "buildAndExecRequest env j method url body = ([req], Inr [])"
  using assms by (auto simp: buildAndExecRequest_def Let_def)

lemma example_answer:
  "buildAndExecRequest (example_env (Some answer) found) example_Jira method url body =
     ([\<lparr>Method = method, Url = url, RequestBody = body,
        ContentType = (if body \<noteq> None then Some ''application/json;charset=UTF-8'' else None),
        BasicAuth = (''user'', ''secret'')\<rparr>], Inr answer)"
  by (simp add: buildAndExecRequest_def example_env_def example_Jira_def Let_def)

lemma example_issue_json:
  "Issue_json user
     (zero_Issue\<lparr>Issue_Key := ''TEST-1'',
        Fields := Some (zero_IssueFields\<lparr>Reporter := None, Assignee := None, Created := []\<rparr>)\<rparr>) =
   Inr (JObject [(''key'', JString ''TEST-1''), (''fields'', JObject [])])"
  by (simp add: Issue_json_def IssueFields_json_def object_def pointer_field_def
      string_field_def float32_field_def versions_field_def zero_Issue_def zero_IssueFields_def)

text \<open>
  C2. For an issue whose \<open>Fields\<close> is present, \<open>SaveIssue\<close> leaves the caller's issue with
  \<open>Reporter\<close> and \<open>Assignee\<close> nil and \<open>Created\<close> empty, whatever they were; and the body
  of every request it sends is the text of the document encoded from that issue, which has
  no \<open>reporter\<close>, \<open>assignee\<close> or \<open>created\<close> member, neither in its \<open>fields\<close> object nor
  beside it.
\<close>

theorem SaveIssue_clears_server_fields:
  assumes "Fields issue = Some f"
  shows "\<exists>sent r.
           SaveIssue env j issue =
             (issue\<lparr>Fields := Some (f\<lparr>Reporter := None, Assignee := None, Created := []\<rparr>)\<rparr>,
              sent, r) \<and>
           (\<forall>req \<in> set sent. \<exists>doc fs.
              RequestBody req = Some (render env doc) \<and>
              Issue_json (user_json env)
                (issue\<lparr>Fields := Some (f\<lparr>Reporter := None, Assignee := None,
                   Created := []\<rparr>)\<rparr>) = Inr doc \<and>
              object_member doc ''fields'' = Some fs \<and>
              ''reporter'' \<notin> object_keys fs \<and> ''assignee'' \<notin> object_keys fs \<and> ''created'' \<notin> object_keys fs \<and>
              ''reporter'' \<notin> object_keys doc \<and> ''assignee'' \<notin> object_keys doc \<and> ''created'' \<notin> object_keys doc)"
proof -
  define f' where "f' = f\<lparr>Reporter := None, Assignee := None, Created := []\<rparr>"
  define issue' where "issue' = issue\<lparr>Fields := Some f'\<rparr>"
  show ?thesis
  proof (cases "Issue_json (user_json env) issue'")
    case (Inl err)
    with assms have "SaveIssue env j issue = (issue', [], Inr (Some err))"
      by (simp add: SaveIssue_def issue'_def f'_def)
    then show ?thesis
      unfolding issue'_def f'_def by simp
  next
    case (Inr doc)
    obtain sent r where run: "buildAndExecRequest env j ''PUT''
        (BaseUrl j @ ApiPath j @ ''/issue/'' @ Issue_Key issue) (Some (render env doc)) = (sent, r)"
      by (cases "buildAndExecRequest env j ''PUT''
        (BaseUrl j @ ApiPath j @ ''/issue/'' @ Issue_Key issue) (Some (render env doc))")
    from SaveIssue_run [OF assms Inr [unfolded issue'_def f'_def] run]
    have save: "\<exists>r'. SaveIssue env j issue = (issue', sent, r')"
      by (simp add: issue'_def f'_def)
    have "Fields issue' = Some f'" by (simp add: issue'_def)
    from Issue_json_fields [OF Inr this]
    obtain fs where fs: "IssueFields_json (user_json env) f' = Inr fs"
        "object_member doc ''fields'' = Some fs" by blast
    have none: "''reporter'' \<notin> object_keys fs \<and> ''assignee'' \<notin> object_keys fs \<and> ''created'' \<notin> object_keys fs"
      using IssueFields_json_keys [OF fs(1)] by (auto simp: f'_def)
    have top: "''reporter'' \<notin> object_keys doc \<and> ''assignee'' \<notin> object_keys doc \<and> ''created'' \<notin> object_keys doc"
      using Issue_json_keys [OF Inr] by auto
    have "\<forall>req \<in> set sent. RequestBody req = Some (render env doc)"
      using buildAndExecRequest_sent [OF run] by blast
    with save Inr fs(2) none top show ?thesis
      unfolding issue'_def f'_def by blast
  qed
qed

theorem SaveIssue_clears_server_fields_witness:
  "fst (SaveIssue (example_env (Some []) zero_SearchResult) example_Jira
     ((NewIssue ''TEST'' ''Bug'')\<lparr>Fields :=
        Some (zero_IssueFields\<lparr>Reporter := Some (), Created := ''2014-01-01''\<rparr>)\<rparr>)) =
   (NewIssue ''TEST'' ''Bug'')\<lparr>Fields := Some zero_IssueFields\<rparr>"
proof -
  let ?f = "zero_IssueFields\<lparr>Reporter := Some (), Created := ''2014-01-01''\<rparr> :: unit IssueFields"
  let ?issue = "(NewIssue ''TEST'' ''Bug'')\<lparr>Fields := Some ?f\<rparr>"
  have "Fields ?issue = Some ?f" by simp
  from SaveIssue_clears_server_fields [OF this,
      of "example_env (Some []) zero_SearchResult" example_Jira]
  show ?thesis
    by (auto simp: zero_IssueFields_def)
qed

text \<open>
  C4. For \<open>SaveIssue\<close> (on an issue whose \<open>Fields\<close> is present and that can be encoded)
  and \<open>AddVersionToIssue\<close>, whatever bytes the executor returns for their request: no bytes
  make the operation return nil, and any other bytes make it return the error whose message
  is \<open>error: \<close> followed by these bytes.
\<close>

theorem void_operations_response:
  "(Fields issue = Some f \<and>
    Issue_json (user_json env)
      (issue\<lparr>Fields := Some (f\<lparr>Reporter := None, Assignee := None, Created := []\<rparr>)\<rparr>) = Inr doc \<and>
    buildAndExecRequest env j ''PUT'' (BaseUrl j @ ApiPath j @ ''/issue/'' @ Issue_Key issue)
      (Some (render env doc)) = (sent, Inr contents) \<longrightarrow>
    snd (snd (SaveIssue env j issue)) =
      Inr (if contents = [] then None else Some (''error: '' @ contents))) \<and>
   (buildAndExecRequest env j ''PUT'' (BaseUrl j @ ApiPath j @ ''/issue/'' @ IssueRef_Key i)
      (Some (add_version_body (Version_Id v))) = (sent', Inr contents') \<longrightarrow>
    snd (AddVersionToIssue env j (Some i) (Some v)) =
      Inr (if contents' = [] then None else Some (''error: '' @ contents')))"
proof (intro conjI impI)
  assume "Fields issue = Some f \<and>
    Issue_json (user_json env)
      (issue\<lparr>Fields := Some (f\<lparr>Reporter := None, Assignee := None, Created := []\<rparr>)\<rparr>) = Inr doc \<and>
    buildAndExecRequest env j ''PUT'' (BaseUrl j @ ApiPath j @ ''/issue/'' @ Issue_Key issue)
      (Some (render env doc)) = (sent, Inr contents)"
  then show "snd (snd (SaveIssue env j issue)) =
      Inr (if contents = [] then None else Some (''error: '' @ contents))"
    by (simp add: SaveIssue_run)
next
  assume "buildAndExecRequest env j ''PUT'' (BaseUrl j @ ApiPath j @ ''/issue/'' @ IssueRef_Key i)
      (Some (add_version_body (Version_Id v))) = (sent', Inr contents')"
  then show "snd (AddVersionToIssue env j (Some i) (Some v)) =
      Inr (if contents' = [] then None else Some (''error: '' @ contents'))"
    by (simp add: AddVersionToIssue_run)
qed


theorem void_operations_response_witness:
  "snd (snd (SaveIssue (example_env (Some ''Issue Does Not Exist'') zero_SearchResult)
      example_Jira
      (zero_Issue\<lparr>Issue_Key := ''TEST-1'', Fields := Some zero_IssueFields\<rparr> :: unit Issue))) =
     Inr (Some ''error: Issue Does Not Exist'') \<and>
   snd (AddVersionToIssue (example_env (Some []) (zero_SearchResult :: unit SearchResult))
      example_Jira (Some \<lparr>IssueRef_Id = ''10000'', IssueRef_Key = ''TEST-1'', IssueRef_Self = []\<rparr>)
      (Some (zero_Version\<lparr>Version_Id := ''10010''\<rparr>))) = Inr None"
proof -
  let ?env = "example_env (Some ''Issue Does Not Exist'') zero_SearchResult :: unit env"
  let ?env' = "example_env (Some []) zero_SearchResult :: unit env"
  let ?issue = "zero_Issue\<lparr>Issue_Key := ''TEST-1'', Fields := Some zero_IssueFields\<rparr> :: unit Issue"
  let ?doc = "JObject [(''key'', JString ''TEST-1''), (''fields'', JObject [])]"
  let ?i = "\<lparr>IssueRef_Id = ''10000'', IssueRef_Key = ''TEST-1'', IssueRef_Self = []\<rparr>"
  let ?v = "zero_Version\<lparr>Version_Id := ''10010''\<rparr>"
  have f: "Fields ?issue = Some zero_IssueFields" by simp
  have doc: "Issue_json (user_json ?env)
      (?issue\<lparr>Fields := Some (zero_IssueFields\<lparr>Reporter := None, Assignee := None,
         Created := []\<rparr>)\<rparr>) = Inr ?doc"
    using example_issue_json [of "user_json ?env"] by simp
  have a: "buildAndExecRequest ?env example_Jira ''PUT''
      (BaseUrl example_Jira @ ApiPath example_Jira @ ''/issue/'' @ Issue_Key ?issue)
      (Some (render ?env ?doc)) =
      ([\<lparr>Method = ''PUT'',
         Url = BaseUrl example_Jira @ ApiPath example_Jira @ ''/issue/'' @ Issue_Key ?issue,
         RequestBody = Some (render ?env ?doc),
         ContentType = Some ''application/json;charset=UTF-8'',
         BasicAuth = (''user'', ''secret'')\<rparr>], Inr ''Issue Does Not Exist'')"
    by (simp add: example_answer)
  have b: "buildAndExecRequest ?env' example_Jira ''PUT''
      (BaseUrl example_Jira @ ApiPath example_Jira @ ''/issue/'' @ IssueRef_Key ?i)
      (Some (add_version_body (Version_Id ?v))) =
      ([\<lparr>Method = ''PUT'',
         Url = BaseUrl example_Jira @ ApiPath example_Jira @ ''/issue/'' @ IssueRef_Key ?i,
         RequestBody = Some (add_version_body (Version_Id ?v)),
         ContentType = Some ''application/json;charset=UTF-8'',
         BasicAuth = (''user'', ''secret'')\<rparr>], Inr [])"
    by (simp add: example_answer)
  have "snd (snd (SaveIssue ?env example_Jira ?issue)) =
      Inr (Some ''error: Issue Does Not Exist'')"
    using void_operations_response [THEN conjunct1, of ?issue zero_IssueFields ?env ?doc
        example_Jira _ "''Issue Does Not Exist''"] f doc a
    by simp
  moreover have "snd (AddVersionToIssue ?env' example_Jira (Some ?i) (Some ?v)) = Inr None"
    using void_operations_response [THEN conjunct2, of ?env' example_Jira ?i ?v _ "[]"] b
    by simp
  ultimately show ?thesis by simp
qed

text \<open>
  C8. \<open>SaveIssue\<close> reads \<open>issue.Fields\<close> without a check: for an issue whose \<open>Fields\<close>
  is nil it panics with a nil pointer dereference, before anything is encoded or sent, and
  returns no error.
\<close>

theorem SaveIssue_nil_Fields_panics:
  assumes "Fields issue = None"
  shows "SaveIssue env j issue = (issue, [], Inl NilDereference)"
  using assms by (simp add: SaveIssue_def)

theorem SaveIssue_nil_Fields_panics_witness:
  "SaveIssue (example_env (Some []) zero_SearchResult) example_Jira (zero_Issue :: unit Issue) =
     (zero_Issue, [], Inl NilDereference)"
proof -
  have "Fields (zero_Issue :: unit Issue) = None"
    by (simp add: zero_Issue_def)
  then show ?thesis by (rule SaveIssue_nil_Fields_panics)
qed

lemma empty_answer:
  assumes "client_do env req = Some \<lparr>ContentEncoding = [], RawBody = []\<rparr>"
    and "body \<noteq> None \<longrightarrow> create_ok env ''last_body.txt''"
    and "create_ok env ''last_response.txt''"
    and "request_ok env method url" and "Auth j = Some auth"
    and "req = \<lparr>Method = method, Url = url, RequestBody = body,
                 ContentType = (if body \<noteq> None then Some ''application/json;charset=UTF-8''
                                else None),
                 BasicAuth = (Login auth, Password auth)\<rparr>"
  shows "buildAndExecRequest env j method url body = ([req], Inr [])"
  using assms by (auto simp: buildAndExecRequest_def Let_def)

lemma same_answer_SaveIssue:
  assumes "\<And>method url body.
      buildAndExecRequest env' j method url body = buildAndExecRequest env j method url body"
    and "user_json env' = user_json env" and "render env' = render env"
  shows "SaveIssue env' j issue = SaveIssue env j issue"
  unfolding SaveIssue_def assms by (rule refl)

lemma same_answer_AddVersionToIssue:
  assumes "\<And>method url body.
      buildAndExecRequest env' j method url body = buildAndExecRequest env j method url body"
  shows "AddVersionToIssue env' j issue version = AddVersionToIssue env j issue version"
  unfolding AddVersionToIssue_def assms by (rule refl)

text \<open>
  C9. When the HTTP client fails on every request, while the file for the request body can
  be created, every request is well formed and the credentials are present, the executor
  returns no bytes; \<open>SaveIssue\<close> (on an issue whose \<open>Fields\<close> is present and that can be
  encoded) and \<open>AddVersionToIssue\<close> then return nil; and both operations do and return
  what they do and return when every request is answered with an empty body (and the file
  for the response can be created).
\<close>

theorem void_operations_transport_failure:
  assumes "\<forall>req. client_do env req = None" and "create_ok env ''last_body.txt''"
    and "\<forall>method url. request_ok env method url" and "Auth j = Some auth"
  shows "snd (buildAndExecRequest env j method url body) = Inr [] \<and>
         (Fields issue = Some f \<and>
          Issue_json (user_json env)
            (issue\<lparr>Fields := Some (f\<lparr>Reporter := None, Assignee := None, Created := []\<rparr>)\<rparr>)
            = Inr doc \<longrightarrow>
          snd (snd (SaveIssue env j issue)) = Inr None) \<and>
         snd (AddVersionToIssue env j (Some i) (Some v)) = Inr None \<and>
         (create_ok env ''last_response.txt'' \<longrightarrow>
          SaveIssue (env\<lparr>client_do := \<lambda>req. Some \<lparr>ContentEncoding = [], RawBody = []\<rparr>\<rparr>)
              j issue' =
            SaveIssue env j issue' \<and>
          AddVersionToIssue
              (env\<lparr>client_do := \<lambda>req. Some \<lparr>ContentEncoding = [], RawBody = []\<rparr>\<rparr>) j i' v' =
            AddVersionToIssue env j i' v')"
proof -
  let ?env' = "env\<lparr>client_do := \<lambda>req. Some \<lparr>ContentEncoding = [], RawBody = []\<rparr>\<rparr>"
  let ?req = "\<lambda>method' url' body'. \<lparr>Method = method', Url = url', RequestBody = body',
      ContentType = (if body' \<noteq> None then Some ''application/json;charset=UTF-8'' else None),
      BasicAuth = (Login auth, Password auth)\<rparr>"
  have exec: "buildAndExecRequest env j method' url' body' = ([?req method' url' body'], Inr [])"
    for method' url' body'
    using assms transport_failure [of env "?req method' url' body'" body' method' url' j auth]
    by simp
  show ?thesis
  proof (intro conjI impI)
    show "snd (buildAndExecRequest env j method url body) = Inr []"
      by (simp add: exec)
  next
    assume "Fields issue = Some f \<and>
          Issue_json (user_json env)
            (issue\<lparr>Fields := Some (f\<lparr>Reporter := None, Assignee := None, Created := []\<rparr>)\<rparr>)
            = Inr doc"
    then show "snd (snd (SaveIssue env j issue)) = Inr None"
      using exec by (simp add: SaveIssue_run)
  next
    show "snd (AddVersionToIssue env j (Some i) (Some v)) = Inr None"
      using exec by (simp add: AddVersionToIssue_run)
  next
    assume created: "create_ok env ''last_response.txt''"
    have exec': "buildAndExecRequest ?env' j method' url' body' =
        ([?req method' url' body'], Inr [])"
      for method' url' body'
      using assms created
        empty_answer [of ?env' "?req method' url' body'" body' method' url' j auth]
      by simp
    have same: "buildAndExecRequest ?env' j method' url' body' =
        buildAndExecRequest env j method' url' body'"
      for method' url' body'
      by (simp only: exec exec')
    show "SaveIssue ?env' j issue' = SaveIssue env j issue'"
      using same by (rule same_answer_SaveIssue) simp_all
    show "AddVersionToIssue ?env' j i' v' = AddVersionToIssue env j i' v'"
      using same by (rule same_answer_AddVersionToIssue)
  qed
qed

theorem void_operations_transport_failure_witness:
  "snd (buildAndExecRequest (example_env None (zero_SearchResult :: unit SearchResult))
      example_Jira ''GET'' ''https://jira.example.com/rest/api/2/issue/TEST-1'' None) = Inr [] \<and>
   snd (snd (SaveIssue (example_env None zero_SearchResult) example_Jira
      (zero_Issue\<lparr>Issue_Key := ''TEST-1'', Fields := Some zero_IssueFields\<rparr> :: unit Issue))) =
     Inr None \<and>
   snd (AddVersionToIssue (example_env None (zero_SearchResult :: unit SearchResult))
      example_Jira (Some \<lparr>IssueRef_Id = ''10000'', IssueRef_Key = ''TEST-1'', IssueRef_Self = []\<rparr>)
      (Some (zero_Version\<lparr>Version_Id := ''10010''\<rparr>))) = Inr None"
proof -
  let ?env = "example_env None zero_SearchResult :: unit env"
  let ?issue = "zero_Issue\<lparr>Issue_Key := ''TEST-1'', Fields := Some zero_IssueFields\<rparr> :: unit Issue"
  let ?doc = "JObject [(''key'', JString ''TEST-1''), (''fields'', JObject [])]"
  have h: "\<forall>req. client_do ?env req = None" "create_ok ?env ''last_body.txt''"
      "\<forall>method url. request_ok ?env method url"
      "Auth example_Jira = Some \<lparr>Login = ''user'', Password = ''secret''\<rparr>"
    by (simp_all add: example_env_def example_Jira_def)
  have f: "Fields ?issue = Some zero_IssueFields" by simp
  have doc: "Issue_json (user_json ?env)
      (?issue\<lparr>Fields := Some (zero_IssueFields\<lparr>Reporter := None, Assignee := None,
         Created := []\<rparr>)\<rparr>) = Inr ?doc"
    using example_issue_json [of "user_json ?env"] by simp
  from void_operations_transport_failure [OF h, of _ _ _ ?issue zero_IssueFields ?doc] f doc
  show ?thesis by simp
qed

lemma example_Jira_paths:
  "BaseUrl example_Jira = ''https://jira.example.com''" "ApiPath example_Jira = ''/rest/api/2''"
  by (simp_all add: example_Jira_def)

lemma QueryEscape_example: "QueryEscape ''TEST-1?expand=changelog'' = ''TEST-1%3Fexpand%3Dchangelog''"
  by (simp add: unreserved_def hex_digit_def)

lemma Itoa_examples: "Itoa 25 = ''25''" "Itoa 20 = ''20''"
  by (simp_all add: Itoa_def digits.simps)

text \<open>
  C5. The operations that place a value in the path of the URL insert it as it is:
  \<open>Issue\<close>, \<open>AddComment\<close> and \<open>GetAllVersions\<close> called with a value that holds \<open>?\<close> and
  \<open>=\<close> send a request whose URL holds these bytes unescaped, where \<open>QueryEscape\<close>, which
  the search operations apply to their values, would give \<open>%3F\<close> and \<open>%3D\<close>.
\<close>

theorem path_values_not_escaped:
  "map Url (fst (Issue (example_env (Some []) (zero_SearchResult :: unit SearchResult))
      example_Jira ''TEST-1?expand=changelog'')) =
     [''https://jira.example.com/rest/api/2/issue/TEST-1?expand=changelog''] \<and>
   map Url (fst (AddComment (example_env (Some []) (zero_SearchResult :: unit SearchResult))
      example_Jira ''TEST-1?expand=changelog'' (Some \<lparr>Body = ''done''\<rparr>))) =
     [''https://jira.example.com/rest/api/2/issue/TEST-1?expand=changelog/comment''] \<and>
   map Url (fst (GetAllVersions (example_env (Some []) (zero_SearchResult :: unit SearchResult))
      example_Jira ''TEST-1?expand=changelog'')) =
     [''https://jira.example.com/rest/api/2/project/TEST-1?expand=changelog/versions''] \<and>
   QueryEscape ''TEST-1?expand=changelog'' = ''TEST-1%3Fexpand%3Dchangelog''"
proof (intro conjI)
  have "unmarshal_Comment (example_env answer found) contents = (\<lparr>Body = []\<rparr>, None)"
    for answer and found :: "unit SearchResult" and contents
    by (simp add: example_env_def)
  then show "map Url (fst (AddComment (example_env (Some []) (zero_SearchResult :: unit SearchResult))
      example_Jira ''TEST-1?expand=changelog'' (Some \<lparr>Body = ''done''\<rparr>))) =
     [''https://jira.example.com/rest/api/2/issue/TEST-1?expand=changelog/comment'']"
    by (simp add: AddComment_def example_answer example_Jira_paths Let_def)
qed (simp_all only: QueryEscape_example, simp_all add: Issue_def GetAllVersions_def
    example_answer example_Jira_paths)

lemma IssuesAssignedTo_sent:
  "req \<in> set (fst (IssuesAssignedTo pf env j user maxResults startAt)) \<Longrightarrow>
   Url req = BaseUrl j @ ApiPath j @ ''/search?jql=assignee='' @ [quote] @ QueryEscape user
     @ [quote] @ ''&startAt='' @ Itoa startAt @ ''&maxResults='' @ Itoa maxResults"
proof -
  let ?url = "BaseUrl j @ ApiPath j @ ''/search?jql=assignee='' @ [quote] @ QueryEscape user
     @ [quote] @ ''&startAt='' @ Itoa startAt @ ''&maxResults='' @ Itoa maxResults"
  assume req: "req \<in> set (fst (IssuesAssignedTo pf env j user maxResults startAt))"
  obtain sent r where run: "buildAndExecRequest env j ''GET'' ?url None = (sent, r)"
    by (cases "buildAndExecRequest env j ''GET'' ?url None")
  then have "fst (IssuesAssignedTo pf env j user maxResults startAt) = sent"
    by (simp add: IssuesAssignedTo_def Let_def split: sum.splits prod.splits)
  with req buildAndExecRequest_sent [OF run] show ?thesis by simp
qed

lemma Search_sent:
  "req \<in> set (fst (Search env j jql maxResults)) \<Longrightarrow>
   Url req = BaseUrl j @ ApiPath j @ ''/search?jql='' @ QueryEscape jql
     @ ''&maxResults='' @ Itoa maxResults"
proof -
  let ?url = "BaseUrl j @ ApiPath j @ ''/search?jql='' @ QueryEscape jql
     @ ''&maxResults='' @ Itoa maxResults"
  assume req: "req \<in> set (fst (Search env j jql maxResults))"
  obtain sent r where run: "buildAndExecRequest env j ''GET'' ?url None = (sent, r)"
    by (cases "buildAndExecRequest env j ''GET'' ?url None")
  then have "fst (Search env j jql maxResults) = sent"
    by (simp add: Search_def Let_def split: sum.splits)
  with req buildAndExecRequest_sent [OF run] show ?thesis by simp
qed

lemma IssuesAssignedTo_result:
  assumes "IssuesAssignedTo pf env j user maxResults startAt = (sent, Inr result)"
  shows "\<exists>pagination.
           Compute pf (zero_Pagination
             \<lparr>Total := SearchResult_Total result, StartAt := SearchResult_StartAt result,
              MaxResults := SearchResult_MaxResults result\<rparr>) = Inr pagination \<and>
           SearchResult_Pagination result = Some pagination"
  using assms
  by (auto simp: IssuesAssignedTo_def Let_def split: sum.splits prod.splits)

text \<open>
  C6. \<open>IssuesAssignedTo\<close> sends \<open>startAt\<close> and \<open>maxResults\<close> in its query and, when it
  returns, the returned result carries the \<open>Pagination\<close> that \<open>Compute\<close> gives for the
  result's \<open>Total\<close>, \<open>StartAt\<close> and \<open>MaxResults\<close>. \<open>Search\<close> has no \<open>startAt\<close>: its
  query carries the escaped JQL and \<open>maxResults\<close> only.
\<close>

theorem IssuesAssignedTo_pagination:
  "(IssuesAssignedTo pf env j user maxResults startAt = (sent, Inr result) \<longrightarrow>
      (\<exists>pagination.
         Compute pf (zero_Pagination
           \<lparr>Total := SearchResult_Total result, StartAt := SearchResult_StartAt result,
            MaxResults := SearchResult_MaxResults result\<rparr>) = Inr pagination \<and>
         SearchResult_Pagination result = Some pagination)) \<and>
   (\<forall>req \<in> set (fst (IssuesAssignedTo pf env j user maxResults startAt)).
      Url req = BaseUrl j @ ApiPath j @ ''/search?jql=assignee='' @ [quote] @ QueryEscape user
        @ [quote] @ ''&startAt='' @ Itoa startAt @ ''&maxResults='' @ Itoa maxResults) \<and>
   (\<forall>req \<in> set (fst (Search env j jql maxResults)).
      Url req = BaseUrl j @ ApiPath j @ ''/search?jql='' @ QueryEscape jql
        @ ''&maxResults='' @ Itoa maxResults)"
  using IssuesAssignedTo_result IssuesAssignedTo_sent Search_sent by blast

lemma IssuesAssignedTo_example:
  "IssuesAssignedTo amd64
     (example_env (Some [])
        (zero_SearchResult\<lparr>SearchResult_Total := 95, SearchResult_StartAt := 20,
           SearchResult_MaxResults := 25\<rparr> :: unit SearchResult))
     example_Jira ''alice'' 25 20 =
   ([\<lparr>Method = ''GET'',
      Url = ''https://jira.example.com/rest/api/2/search?jql=assignee='' @ [quote] @ ''alice''
        @ [quote] @ ''&startAt=20&maxResults=25'',
      RequestBody = None, ContentType = None, BasicAuth = (''user'', ''secret'')\<rparr>],
    Inr (zero_SearchResult\<lparr>SearchResult_Total := 95, SearchResult_StartAt := 20,
           SearchResult_MaxResults := 25,
           SearchResult_Pagination := Some (zero_Pagination\<lparr>Total := 95, StartAt := 20,
             MaxResults := 25, PageCount := 4, Page := 1, Pages := [0, 1, 2, 3]\<rparr>)\<rparr>))"
proof -
  have "unmarshal_SearchResult (example_env (Some []) found) contents = (found, None)"
    for found :: "unit SearchResult" and contents
    by (simp add: example_env_def)
  then show ?thesis
    by (simp add: IssuesAssignedTo_def example_answer Compute_example Itoa_examples
        unreserved_def example_Jira_paths zero_SearchResult_def)
qed

theorem IssuesAssignedTo_pagination_witness:
  "\<exists>sent result.
     IssuesAssignedTo amd64
       (example_env (Some [])
          (zero_SearchResult\<lparr>SearchResult_Total := 95, SearchResult_StartAt := 20,
             SearchResult_MaxResults := 25\<rparr> :: unit SearchResult))
       example_Jira ''alice'' 25 20 = (sent, Inr result) \<and>
     map Url sent = [''https://jira.example.com/rest/api/2/search?jql=assignee='' @ [quote]
       @ ''alice'' @ [quote] @ ''&startAt=20&maxResults=25''] \<and>
     SearchResult_Pagination result =
       Some (zero_Pagination\<lparr>Total := 95, StartAt := 20, MaxResults := 25, PageCount := 4,
         Page := 1, Pages := [0, 1, 2, 3]\<rparr>) \<and>
     Compute amd64 (zero_Pagination\<lparr>Total := 95, StartAt := 20, MaxResults := 25\<rparr>) =
       Inr (zero_Pagination\<lparr>Total := 95, StartAt := 20, MaxResults := 25, PageCount := 4,
         Page := 1, Pages := [0, 1, 2, 3]\<rparr>)"
proof -
  let ?found = "zero_SearchResult\<lparr>SearchResult_Total := 95, SearchResult_StartAt := 20,
             SearchResult_MaxResults := 25\<rparr> :: unit SearchResult"
  let ?pagination = "zero_Pagination\<lparr>Total := 95, StartAt := 20, MaxResults := 25,
     PageCount := 4, Page := 1, Pages := [0, 1, 2, 3]\<rparr>"
  let ?result = "?found\<lparr>SearchResult_Pagination := Some ?pagination\<rparr>"
  note run = IssuesAssignedTo_example
  from IssuesAssignedTo_pagination [THEN conjunct1, rule_format, OF run]
  have "Compute amd64 (zero_Pagination\<lparr>Total := 95, StartAt := 20, MaxResults := 25\<rparr>) =
      Inr ?pagination"
    by (simp add: zero_SearchResult_def)
  with run show ?thesis by simp
qed

lemma Compute_first_page:
  "Compute amd64 (zero_Pagination\<lparr>Total := 95, StartAt := 0, MaxResults := 25\<rparr>) =
     Inr (zero_Pagination\<lparr>Total := 95, StartAt := 0, MaxResults := 25,
            PageCount := 4, Page := 0, Pages := [0, 1, 2, 3]\<rparr>)"
proof -
  let ?p = "zero_Pagination\<lparr>Total := 95, StartAt := 0, MaxResults := 25\<rparr>"
  have "\<lceil>(19 / 5 :: rat)\<rceil> = 4"
    by (rule ceiling_unique; simp)
  then have c: "\<lceil>(of_int (Total ?p) / of_int (MaxResults ?p) :: rat)\<rceil> = 4"
    and d: "\<lceil>(of_int (StartAt ?p) / of_int (MaxResults ?p) :: rat)\<rceil> = 0"
    by (simp_all add: zero_Pagination_def)
  have l: "map int [0..<nat 4] = [0, 1, 2, 3]"
    by (simp add: upt_rec)
  have "Compute amd64 ?p = Inr (?p\<lparr>PageCount := 4, Page := 0, Pages := [0, 1, 2, 3]\<rparr>)"
    using Compute_value [of ?p amd64] unfolding c d l
    by (simp add: zero_Pagination_def amd64_def)
  then show ?thesis by simp
qed

text \<open>
  C6 fails for \<open>Search\<close>: its request carries no \<open>startAt\<close>, and a result that decodes
  with \<open>Total\<close> 95 and \<open>MaxResults\<close> 25 and no pagination is returned as it is, with a
  nil \<open>Pagination\<close>, where \<open>Compute\<close> gives four pages for these numbers.
\<close>

theorem Search_attaches_no_Pagination:
  "Search
     (example_env (Some [])
        (zero_SearchResult\<lparr>SearchResult_Total := 95, SearchResult_MaxResults := 25\<rparr>
           :: unit SearchResult))
     example_Jira ''project = TEST'' 25 =
   ([\<lparr>Method = ''GET'',
      Url = ''https://jira.example.com/rest/api/2/search?jql=project+%3D+TEST&maxResults=25'',
      RequestBody = None, ContentType = None, BasicAuth = (''user'', ''secret'')\<rparr>],
    Inr (zero_SearchResult\<lparr>SearchResult_Total := 95, SearchResult_MaxResults := 25,
           SearchResult_Pagination := None\<rparr>, None)) \<and>
   Compute amd64 (zero_Pagination\<lparr>Total := 95, StartAt := 0, MaxResults := 25\<rparr>) =
     Inr (zero_Pagination\<lparr>Total := 95, StartAt := 0, MaxResults := 25,
            PageCount := 4, Page := 0, Pages := [0, 1, 2, 3]\<rparr>)"
proof
  have "unmarshal_SearchResult (example_env (Some []) found) contents = (found, None)"
    for found :: "unit SearchResult" and contents
    by (simp add: example_env_def)
  then show "Search
     (example_env (Some [])
        (zero_SearchResult\<lparr>SearchResult_Total := 95, SearchResult_MaxResults := 25\<rparr>
           :: unit SearchResult))
     example_Jira ''project = TEST'' 25 =
   ([\<lparr>Method = ''GET'',
      Url = ''https://jira.example.com/rest/api/2/search?jql=project+%3D+TEST&maxResults=25'',
      RequestBody = None, ContentType = None, BasicAuth = (''user'', ''secret'')\<rparr>],
    Inr (zero_SearchResult\<lparr>SearchResult_Total := 95, SearchResult_MaxResults := 25,
           SearchResult_Pagination := None\<rparr>, None))"
    by (simp add: Search_def example_answer Itoa_examples unreserved_def hex_digit_def
        example_Jira_paths zero_SearchResult_def)
  show "Compute amd64 (zero_Pagination\<lparr>Total := 95, StartAt := 0, MaxResults := 25\<rparr>) =
     Inr (zero_Pagination\<lparr>Total := 95, StartAt := 0, MaxResults := 25,
            PageCount := 4, Page := 0, Pages := [0, 1, 2, 3]\<rparr>)"
    by (rule Compute_first_page)
qed

end
